theory Spec2Isabelle
  imports Main "HOL-Library.Word"
begin

section \<open>Bytes, constants of the C environment\<close>

text \<open>
  A byte is a \<open>char\<close> (eight bits in HOL), so that the decoded text of the examples can be
  written as a string literal. \<open>uint64_t\<close> and \<open>off64_t\<close> are both 64-bit words: the
  casts between them in \<open>zstdfile_seek\<close> keep the bits, and \<open>off64_t\<close> is read through
  \<open>sint\<close>. The addition on \<open>off64_t\<close> in \<open>zstdfile_seek\<close> is modelled as wrapping.
\<close>

type_synonym byte = char

type_synonym uint64_t = "64 word"

type_synonym off64_t = "64 word"

definition ENOBUFS :: int where
  "ENOBUFS = 105"

definition EINVAL :: int where
  "EINVAL = 22"

definition SSIZE_MAX :: nat where
  "SSIZE_MAX = 2 ^ 63 - 1"

definition SEEK_SET :: int where
  "SEEK_SET = 0"

definition SEEK_CUR :: int where
  "SEEK_CUR = 1"

definition SEEK_END :: int where
  "SEEK_END = 2"

definition ZSTD_MAGICNUMBER :: "32 word" where
  "ZSTD_MAGICNUMBER = 0xFD2FB528"

text \<open>\<open>le32dec\<close> of \<open><sys/endian.h>\<close>: four bytes, least significant first.\<close>

fun le32dec :: "byte list \<Rightarrow> 32 word" where
  "le32dec (b0 # b1 # b2 # b3 # rest) =
     of_char b0 + push_bit 8 (of_char b1) + push_bit 16 (of_char b2) + push_bit 24 (of_char b3)"

section \<open>The source stream\<close>

text \<open>
  The \<open>FILE *in\<close> the adapter reads from: its bytes, the read position and the two
  indicators of stdio. \<open>fail_errno\<close> says what the underlying descriptor does when the
  bytes run out: \<open>None\<close> is an ordinary end of file, \<open>Some e\<close> a read error that sets
  \<open>errno\<close> to \<open>e\<close> (a nested decompressing stream reports its own truncation this way,
  with \<open>ENOBUFS\<close>).
\<close>

record FILE =
  contents :: "byte list"
  fail_errno :: "int option"
  fpos :: nat
  ferror :: bool
  feof :: bool

text \<open>
  \<open>fread(ptr, 1, n, f)\<close>: the bytes stored, the stream afterwards, and \<open>errno\<close>
  afterwards. A short count sets the end-of-file or the error indicator.
\<close>

definition fread :: "FILE \<Rightarrow> nat \<Rightarrow> int \<Rightarrow> byte list \<times> FILE \<times> int" where
  "fread f n errno =
     (let avail = drop (fpos f) (contents f);
          got = take n avail
      in if n \<le> length avail then (got, f\<lparr>fpos := fpos f + n\<rparr>, errno)
         else (case fail_errno f of
                 None \<Rightarrow> (got, f\<lparr>fpos := fpos f + length got, feof := True\<rparr>, errno)
               | Some e \<Rightarrow> (got, f\<lparr>fpos := fpos f + length got, ferror := True\<rparr>, e)))"

definition rewind :: "FILE \<Rightarrow> FILE" where
  "rewind f = f\<lparr>fpos := 0, ferror := False, feof := False\<rparr>"

text \<open>Storing bytes at the start of a buffer (\<open>fread\<close> into \<open>inbuf\<close>, the decoder into
  \<open>outbuf\<close>): the bytes beyond the stored ones stay as they were.\<close>

definition store :: "byte list \<Rightarrow> byte list \<Rightarrow> byte list" where
  "store buffer xs = xs @ drop (length xs) buffer"

section \<open>The decompression engine\<close>

text \<open>
  libzstd is not part of the repository: the adapter is verified for every engine. An
  engine gives the context that \<open>ZSTD_createDCtx\<close> and \<open>ZSTD_initDStream\<close> produce, the
  two recommended buffer sizes, and \<open>ZSTD_decompressStream\<close> as a function of the context,
  the unconsumed input \<open>src[pos..size)\<close> and the free output space \<open>size - pos\<close>; it
  returns the new context, the number of input bytes consumed, the bytes produced and
  the \<open>size_t\<close> result, which \<open>ZSTD_isError\<close> classifies. Creating the context and
  allocating memory are taken to succeed (the code exits the process otherwise).
\<close>

record 'd engine =
  ZSTD_createDCtx :: 'd
  ZSTD_DStreamInSize :: nat
  ZSTD_DStreamOutSize :: nat
  ZSTD_decompressStream :: "'d \<Rightarrow> byte list \<Rightarrow> nat \<Rightarrow> 'd \<times> nat \<times> byte list \<times> nat"
  ZSTD_isError :: "nat \<Rightarrow> bool"

section \<open>Stream state\<close>

text \<open>
  \<open>struct zstdfile\<close>. The nested \<open>ibuf\<close> and \<open>obuf\<close> are flattened; their \<open>src\<close> and
  \<open>dst\<close> pointers alias \<open>inbuf\<close> and \<open>outbuf\<close>. A buffer is the list of the bytes
  written to it since it was allocated; the code reads no byte beyond them. The buffer
  cursors (\<open>size_t\<close>, and \<open>uint32_t\<close> for \<open>outbuf_start\<close>) are natural numbers: they
  are bounded by the buffer sizes, far below \<open>2 ^ 32\<close>. \<open>decomp\<close> is \<open>None\<close> for the
  null pointer that \<open>zstdfile_cleanup\<close> leaves.
\<close>

record 'd zstdfile =
  in_file :: FILE
  logic_offset :: uint64_t
  decode_offset :: uint64_t
  actual_len :: uint64_t
  outbuf_start :: nat
  decomp :: "'d option"
  inbuf :: "byte list"
  outbuf :: "byte list"
  inbuf_size :: nat
  obuf_size :: nat
  obuf_pos :: nat
  ibuf_size :: nat
  ibuf_pos :: nat
  eof :: bool
  truncated :: bool

definition zstdfile_init :: "'d engine \<Rightarrow> 'd zstdfile \<Rightarrow> 'd zstdfile" where
  "zstdfile_init eng cookie =
     cookie\<lparr>logic_offset := 0, decode_offset := 0, actual_len := 0,
            decomp := Some (ZSTD_createDCtx eng),
            inbuf_size := ZSTD_DStreamInSize eng, inbuf := [],
            ibuf_pos := 0, ibuf_size := 0,
            obuf_size := ZSTD_DStreamOutSize eng, outbuf := [], obuf_pos := 0,
            outbuf_start := 0, eof := False, truncated := False\<rparr>"

definition zstdfile_cleanup :: "'d zstdfile \<Rightarrow> 'd zstdfile" where
  "zstdfile_cleanup cookie = cookie\<lparr>decomp := None, inbuf := [], outbuf := []\<rparr>"

section \<open>Results\<close>

text \<open>Every way the process stops instead of returning: a failed \<open>assert\<close>, \<open>exit(1)\<close>,
  \<open>err(1, ...)\<close>, and the use of a released decoder context.\<close>

datatype abort =
  Assert_size | Assert_ignorebytes | Assert_outbuf_drained | Assert_total
  | Assert_eof | Assert_offset | Exit_read_error | Exit_zstd_error | Null_context

datatype 'a outcome = Abort abort | Returns 'a

section \<open>Opening\<close>

datatype 'd opened = Null | Original FILE | Cookie "'d zstdfile"

text \<open>
  \<open>zstdopenfile(in, mode, was_zstd)\<close>. The result is the stream handed back, the source
  as the call leaves it, what \<open>*was_zstd\<close> holds afterwards (\<open>None\<close> for a null pointer)
  and \<open>errno\<close>. The cookie comes from \<open>malloc\<close> with only \<open>in\<close> assigned;
  \<open>zstdfile_init\<close> assigns every other field, so the values written for them here do not
  matter. \<open>malloc\<close> and \<open>fopencookie\<close> are taken to succeed.
\<close>

definition zstdopenfile ::
  "'d engine \<Rightarrow> FILE \<Rightarrow> string \<Rightarrow> bool option \<Rightarrow> int \<Rightarrow> 'd opened \<times> FILE \<times> bool option \<times> int" where
  "zstdopenfile eng inp mode was_zstd errno =
     (if CHR ''w'' \<in> set mode \<or> CHR ''a'' \<in> set mode then (Null, inp, was_zstd, EINVAL)
      else (case fread inp 4 errno of (hdr, in1, errno1) \<Rightarrow>
        if ferror in1 then (Null, in1, was_zstd, errno1)
        else if length hdr < 4 then (Null, in1, was_zstd, errno1)
        else let in2 = rewind in1 in
          if le32dec hdr \<noteq> ZSTD_MAGICNUMBER
          then (Original in2, in2, map_option (\<lambda>_. False) was_zstd, errno1)
          else (Cookie (zstdfile_init eng
                  \<lparr>in_file = in2, logic_offset = 0, decode_offset = 0, actual_len = 0,
                   outbuf_start = 0, decomp = None, inbuf = [], outbuf = [], inbuf_size = 0,
                   obuf_size = 0, obuf_pos = 0, ibuf_size = 0, ibuf_pos = 0,
                   eof = False, truncated = False\<rparr>),
                in2, map_option (\<lambda>_. True) was_zstd, errno1)))"

section \<open>Reading\<close>

text \<open>The cookie, \<open>errno\<close> and the locals of one \<open>zstdfile_read\<close> call. \<open>buf\<close> holds the
  bytes stored through the caller's pointer so far, \<open>size_r\<close> what is still asked for.\<close>

record 'd rd =
  cookie :: "'d zstdfile"
  errno_r :: int
  buf :: "byte list"
  size_r :: nat
  total :: nat
  ret :: nat
  ignorebytes :: nat

text \<open>The inner \<open>while\<close> loop, which drains the output buffer, in two halves. The
  first is the skipping of bytes a seek left undelivered; it gives the local \<open>left\<close>
  as well.\<close>

definition skip_ignored :: "'d rd \<Rightarrow> 'd rd \<times> nat" where
  "skip_ignored r =
     (let c = cookie r;
          left = obuf_pos c - outbuf_start c;
          ignoreskip = min (ignorebytes r) left
      in if 0 < ignoreskip
         then (r\<lparr>ignorebytes := ignorebytes r - ignoreskip,
                 cookie := c\<lparr>outbuf_start := outbuf_start c + ignoreskip,
                             decode_offset := decode_offset c + of_nat ignoreskip\<rparr>\<rparr>,
               left - ignoreskip)
         else (r, left))"

text \<open>The second half: the \<open>memcpy\<close> into the caller's buffer and the bookkeeping.\<close>

definition deliver :: "'d rd \<Rightarrow> nat \<Rightarrow> 'd rd" where
  "deliver r left =
     (let c = cookie r;
          toread = min left (size_r r)
      in r\<lparr>buf := buf r @ take toread (drop (outbuf_start c) (outbuf c)),
           size_r := size_r r - toread,
           total := total r + toread,
           cookie := c\<lparr>outbuf_start := outbuf_start c + toread,
                       decode_offset := decode_offset c + of_nat toread,
                       logic_offset := logic_offset c + of_nat toread\<rparr>\<rparr>)"

lemma deliver_empties:
  assumes "outbuf_start (cookie r) < obuf_pos (cookie r)"
    and "skip_ignored r = (r1, left)"
    and "size_r (deliver r1 left) \<noteq> 0"
  shows "outbuf_start (cookie (deliver r1 left)) = obuf_pos (cookie r)"
    and "obuf_pos (cookie (deliver r1 left)) = obuf_pos (cookie r)"
proof -
  have pos: "obuf_pos (cookie r1) = obuf_pos (cookie r)"
    and left: "outbuf_start (cookie r1) + left = obuf_pos (cookie r)"
    using assms(1,2) by (auto simp: skip_ignored_def Let_def split: if_splits)
  from assms(3) have "left < size_r r1"
    by (simp add: deliver_def Let_def min_def split: if_splits)
  then have "outbuf_start (cookie (deliver r1 left)) = outbuf_start (cookie r1) + left"
    and "obuf_pos (cookie (deliver r1 left)) = obuf_pos (cookie r1)"
    by (simp_all add: deliver_def Let_def)
  with pos left show "outbuf_start (cookie (deliver r1 left)) = obuf_pos (cookie r)"
    and "obuf_pos (cookie (deliver r1 left)) = obuf_pos (cookie r)"
    by simp_all
qed

function drain :: "'d rd \<Rightarrow> 'd rd" where
  "drain r =
     (if outbuf_start (cookie r) < obuf_pos (cookie r) then
        (case skip_ignored r of (r1, left) \<Rightarrow>
           if 0 < ignorebytes r1 then r1
           else let r2 = deliver r1 left in
             if size_r r2 = 0 then r2 else drain r2)
      else r)"
  by pat_completeness auto

termination
proof (relation "measure (\<lambda>r. obuf_pos (cookie r) - outbuf_start (cookie r))")
  show "wf (measure (\<lambda>r::'d rd. obuf_pos (cookie r) - outbuf_start (cookie r)))"
    by simp
next
  fix r :: "'d rd" and r1 left r2
  assume "outbuf_start (cookie r) < obuf_pos (cookie r)"
    and "(r1, left) = skip_ignored r" and "\<not> 0 < ignorebytes r1"
    and "r2 = deliver r1 left" and "size_r r2 \<noteq> 0"
  then show "(r2, r) \<in> measure (\<lambda>r. obuf_pos (cookie r) - outbuf_start (cookie r))"
    using deliver_empties [of r r1 left] by simp
qed

declare drain.simps [simp del]

text \<open>Where one pass of the \<open>do\<close> loop goes next: round again, to the label \<open>out\<close>, or
  out of the process.\<close>

datatype 'd flow = Again "'d rd" | Out "'d rd" | Stop abort

text \<open>"Read more input if empty".\<close>

definition refill :: "'d rd \<Rightarrow> 'd flow" where
  "refill r =
     (let c = cookie r in
      if ibuf_pos c = ibuf_size c then
        (case fread (in_file c) (inbuf_size c) (errno_r r) of (got, f', e') \<Rightarrow>
           let r1 = r\<lparr>errno_r := e', cookie := c\<lparr>in_file := f', inbuf := store (inbuf c) got\<rparr>\<rparr>
           in if ferror f' then
                (if e' = ENOBUFS
                 then Out (r1\<lparr>cookie := (cookie r1)\<lparr>truncated := True\<rparr>\<rparr>)
                 else Stop Exit_read_error)
              else if length got = 0 \<and> feof f'
              then Out (r1\<lparr>cookie := (cookie r1)\<lparr>truncated := True\<rparr>\<rparr>)
              else Again (r1\<lparr>cookie := (cookie r1)\<lparr>ibuf_pos := 0, ibuf_size := length got\<rparr>\<rparr>))
      else Again r)"

text \<open>"Reset stream state to beginning of output buffer" and the call of the decoder.\<close>

definition decompress :: "'d engine \<Rightarrow> 'd rd \<Rightarrow> 'd flow" where
  "decompress eng r =
     (let c = (cookie r)\<lparr>obuf_pos := 0, outbuf_start := 0\<rparr> in
      case decomp c of
        None \<Rightarrow> Stop Null_context
      | Some d \<Rightarrow>
         (case ZSTD_decompressStream eng d
                 (take (ibuf_size c - ibuf_pos c) (drop (ibuf_pos c) (inbuf c)))
                 (obuf_size c - obuf_pos c)
          of (d', consumed, produced, ret') \<Rightarrow>
            let c1 = c\<lparr>decomp := Some d', ibuf_pos := ibuf_pos c + consumed,
                       obuf_pos := obuf_pos c + length produced,
                       outbuf := store (outbuf c) produced\<rparr>
            in if ZSTD_isError eng ret' then Stop Exit_zstd_error
               else Again (r\<lparr>ret := ret',
                            cookie := c1\<lparr>actual_len := actual_len c1 + of_nat (length produced)\<rparr>\<rparr>)))"

text \<open>One pass of the \<open>do { ... } while (!ferror(cookie->in) && size > 0)\<close> loop.\<close>

definition iteration :: "'d engine \<Rightarrow> 'd rd \<Rightarrow> 'd flow" where
  "iteration eng r =
     (let r1 = drain r in
      if size_r r1 = 0 then Out r1
      else if obuf_pos (cookie r1) \<noteq> outbuf_start (cookie r1) then Stop Assert_outbuf_drained
      else if ret r1 = 0 then Out (r1\<lparr>cookie := (cookie r1)\<lparr>eof := True\<rparr>\<rparr>)
      else (case refill r1 of
              Again r2 \<Rightarrow>
                (case decompress eng r2 of
                   Again r3 \<Rightarrow>
                     if \<not> ferror (in_file (cookie r3)) \<and> 0 < size_r r3 then Again r3 else Out r3
                 | Out r3 \<Rightarrow> Out r3
                 | Stop a \<Rightarrow> Stop a)
            | Out r2 \<Rightarrow> Out r2
            | Stop a \<Rightarrow> Stop a))"

text \<open>The \<open>do\<close> loop. It runs for as long as the decoder asks for another round, so it is
  a partial function: \<open>None\<close> is a call that never comes back.\<close>

partial_function (option) zstdfile_read_loop :: "'d engine \<Rightarrow> 'd rd \<Rightarrow> 'd rd outcome option" where
  "zstdfile_read_loop eng r =
     (case iteration eng r of
        Again r' \<Rightarrow> zstdfile_read_loop eng r'
      | Out r' \<Rightarrow> Some (Returns r')
      | Stop a \<Rightarrow> Some (Abort a))"

declare zstdfile_read_loop.simps [code]

text \<open>The code from the label \<open>out\<close> on. A result is the value returned, the bytes stored
  in the caller's buffer, the cookie and \<open>errno\<close>.\<close>

type_synonym 'd read_result = "(int \<times> byte list \<times> 'd zstdfile \<times> int) outcome"

definition zstdfile_read_out :: "'d zstdfile \<Rightarrow> int \<Rightarrow> byte list \<Rightarrow> nat \<Rightarrow> 'd read_result" where
  "zstdfile_read_out c errno b tot =
     (if SSIZE_MAX < tot then Abort Assert_total
      else if 0 < tot then Returns (int tot, b, c, errno)
      else if truncated c then Returns (- 1, b, c\<lparr>eof := True\<rparr>, ENOBUFS)
      else Returns (0, b, c, errno))"

definition zstdfile_read ::
  "'d engine \<Rightarrow> 'd zstdfile \<Rightarrow> int \<Rightarrow> nat \<Rightarrow> 'd read_result option" where
  "zstdfile_read eng c errno size0 =
     (if SSIZE_MAX < size0 then Some (Abort Assert_size)
      else if size0 = 0 then Some (Returns (0, [], c, errno))
      else if eof c then Some (Returns (0, [], c, errno))
      else if truncated c then Some (zstdfile_read_out c errno [] 0)
      else let ign = unat (logic_offset c - decode_offset c) in
        if ign \<noteq> 0 then Some (Abort Assert_ignorebytes)
        else (case zstdfile_read_loop eng
                     \<lparr>cookie = c, errno_r = errno, buf = [], size_r = size0, total = 0,
                      ret = 1, ignorebytes = ign\<rparr> of
                None \<Rightarrow> None
              | Some (Abort a) \<Rightarrow> Some (Abort a)
              | Some (Returns r) \<Rightarrow>
                  Some (zstdfile_read_out (cookie r) (errno_r r) (buf r) (total r))))"

section \<open>Seeking\<close>

definition bsz :: nat where
  "bsz = 32 * 1024"

text \<open>The skipping loop of a forward seek. It gives \<open>- 1\<close> with the state where the
  function returns from inside the loop, and \<open>0\<close> with the state and \<open>new_offset\<close>
  where the loop is left.\<close>

partial_function (option) seek_skip ::
  "'d engine \<Rightarrow> 'd zstdfile \<Rightarrow> int \<Rightarrow> off64_t \<Rightarrow> (int \<times> 'd zstdfile \<times> int \<times> off64_t) outcome option" where
  "seek_skip eng c errno new_offset =
     (if logic_offset c < new_offset then
        (case zstdfile_read eng c errno (min bsz (unat (new_offset - logic_offset c))) of
           None \<Rightarrow> None
         | Some (Abort a) \<Rightarrow> Some (Abort a)
         | Some (Returns (err, data, c', errno')) \<Rightarrow>
             if err < 0 then Some (Returns (- 1, c', errno', new_offset))
             else if err = 0 then
               (if eof c' then Some (Returns (0, c', errno', logic_offset c'))
                else Some (Abort Assert_eof))
             else seek_skip eng c' errno' new_offset)
      else Some (Returns (0, c, errno, new_offset)))"

declare seek_skip.simps [code]

text \<open>The target a request names, when \<open>whence\<close> is one of the two accepted values.\<close>

definition seek_target :: "'d zstdfile \<Rightarrow> off64_t \<Rightarrow> int \<Rightarrow> off64_t" where
  "seek_target c offset whence = (if whence = SEEK_SET then offset else logic_offset c + offset)"

text \<open>The end of \<open>zstdfile_seek\<close>: the assertion and the successful return.\<close>

definition seek_done ::
  "'d zstdfile \<Rightarrow> int \<Rightarrow> off64_t \<Rightarrow> (int \<times> 'd zstdfile \<times> off64_t \<times> int) outcome option" where
  "seek_done c errno new_offset =
     (if logic_offset c = new_offset then Some (Returns (0, c, new_offset, errno))
      else Some (Abort Assert_offset))"

text \<open>\<open>zstdfile_seek(cookie, &offset, whence)\<close>: the value returned, the cookie, what
  \<open>*offset_\<close> holds afterwards, and \<open>errno\<close>.\<close>

definition zstdfile_seek ::
  "'d engine \<Rightarrow> 'd zstdfile \<Rightarrow> int \<Rightarrow> off64_t \<Rightarrow> int
     \<Rightarrow> (int \<times> 'd zstdfile \<times> off64_t \<times> int) outcome option" where
  "zstdfile_seek eng c errno offset whence =
     (if whence \<noteq> SEEK_SET \<and> whence \<noteq> SEEK_CUR then Some (Returns (- 1, c, offset, errno))
      else let new_offset = seek_target c offset whence in
        if sint new_offset < 0 then Some (Returns (- 1, c, offset, errno))
        else if sint new_offset < sint (logic_offset c) \<and> new_offset \<noteq> 0
        then Some (Returns (- 1, c, offset, errno))
        else if new_offset = 0
        then seek_done (zstdfile_init eng ((zstdfile_cleanup c)\<lparr>in_file := rewind (in_file c)\<rparr>))
               errno new_offset
        else if logic_offset c < new_offset then
          (case seek_skip eng c errno new_offset of
             None \<Rightarrow> None
           | Some (Abort a) \<Rightarrow> Some (Abort a)
           | Some (Returns (st, c', errno', new_offset')) \<Rightarrow>
               if st < 0 then Some (Returns (- 1, c', offset, errno'))
               else seek_done c' errno' new_offset')
        else seek_done c errno new_offset)"

section \<open>Callers\<close>

text \<open>
  A caller makes a list of calls on one stream, each on the state the one before left.
  For every call it keeps what a caller can see: the value returned, the bytes stored in
  its buffer (for a read) or the offset written back (for a seek), the logical offset
  afterwards and \<open>errno\<close>.
\<close>

datatype op = Read nat | Seek off64_t int

datatype reply = Read_reply int "byte list" uint64_t int | Seek_reply int off64_t uint64_t int

fun run ::
  "'d engine \<Rightarrow> 'd zstdfile \<Rightarrow> int \<Rightarrow> op list \<Rightarrow> (reply list \<times> 'd zstdfile \<times> int) outcome option" where
  "run eng c e [] = Some (Returns ([], c, e))"
| "run eng c e (Read n # ops) =
     (case zstdfile_read eng c e n of
        None \<Rightarrow> None
      | Some (Abort a) \<Rightarrow> Some (Abort a)
      | Some (Returns (r, d, c1, e1)) \<Rightarrow>
          (case run eng c1 e1 ops of
             None \<Rightarrow> None
           | Some (Abort a) \<Rightarrow> Some (Abort a)
           | Some (Returns (rs, c2, e2)) \<Rightarrow>
               Some (Returns (Read_reply r d (logic_offset c1) e1 # rs, c2, e2))))"
| "run eng c e (Seek offset whence # ops) =
     (case zstdfile_seek eng c e offset whence of
        None \<Rightarrow> None
      | Some (Abort a) \<Rightarrow> Some (Abort a)
      | Some (Returns (r, c1, off1, e1)) \<Rightarrow>
          (case run eng c1 e1 ops of
             None \<Rightarrow> None
           | Some (Abort a) \<Rightarrow> Some (Abort a)
           | Some (Returns (rs, c2, e2)) \<Rightarrow>
               Some (Returns (Seek_reply r off1 (logic_offset c1) e1 # rs, c2, e2))))"

definition replies :: "'d engine \<Rightarrow> 'd zstdfile \<Rightarrow> int \<Rightarrow> op list \<Rightarrow> reply list outcome option" where
  "replies eng c e ops = map_option (map_outcome fst) (run eng c e ops)"

text \<open>Reading to the end in chunks of \<open>n\<close> bytes: the bytes collected and the value of
  the call that ended it (0 at the end of the stream, \<open>- 1\<close> on an error).\<close>

partial_function (option) read_all ::
  "'d engine \<Rightarrow> 'd zstdfile \<Rightarrow> int \<Rightarrow> nat \<Rightarrow> byte list \<Rightarrow> (byte list \<times> int) outcome option" where
  "read_all eng c e n acc =
     (case zstdfile_read eng c e n of
        None \<Rightarrow> None
      | Some (Abort a) \<Rightarrow> Some (Abort a)
      | Some (Returns (r, d, c1, e1)) \<Rightarrow>
          if r \<le> 0 then Some (Returns (acc, r)) else read_all eng c1 e1 n (acc @ d))"

text \<open>Seeking to the start and reading to the end, as one caller does it.\<close>

definition rewind_read_all ::
  "'d engine \<Rightarrow> 'd zstdfile \<Rightarrow> int \<Rightarrow> nat \<Rightarrow> (byte list \<times> int) outcome option" where
  "rewind_read_all eng c e n =
     (case zstdfile_seek eng c e 0 SEEK_SET of
        None \<Rightarrow> None
      | Some (Abort a) \<Rightarrow> Some (Abort a)
      | Some (Returns (r, c1, off1, e1)) \<Rightarrow>
          if r < 0 then Some (Returns ([], r)) else read_all eng c1 e1 n [])"

section \<open>A decoder for raw blocks\<close>

text \<open>
  For the examples, an engine that decodes the part of the format made of raw blocks: the
  magic number, a frame header descriptor \<open>0x20\<close> (single segment, a one-byte content
  size, no checksum, no dictionary), the content size, then blocks with a three-byte
  header (bit 0 the last-block flag, bits 1-2 the type, the rest the size) of which type
  0, raw, carries its bytes as they are. It takes its input byte by byte, stops when the
  output space is used up, and answers 0 at the end of the frame, an error code on any
  other byte sequence, and 1 when it needs more input or space.
\<close>

datatype dctx =
  Magic "byte list" | Descriptor | Content_size | Block_header "byte list" | Raw nat bool

definition zstd_error :: nat where
  "zstd_error = 2 ^ 64 - 1"

fun raw_decode :: "dctx \<Rightarrow> byte list \<Rightarrow> nat \<Rightarrow> nat \<Rightarrow> byte list \<Rightarrow> dctx \<times> nat \<times> byte list \<times> nat" where
  "raw_decode st [] space n out = (st, n, out, 1)"
| "raw_decode (Magic acc) (b # bs) space n out =
     (if length acc < 3 then raw_decode (Magic (acc @ [b])) bs space (Suc n) out
      else if le32dec (acc @ [b]) = ZSTD_MAGICNUMBER
      then raw_decode Descriptor bs space (Suc n) out
      else (Magic acc, n, out, zstd_error))"
| "raw_decode Descriptor (b # bs) space n out =
     (if b = CHR 0x20 then raw_decode Content_size bs space (Suc n) out
      else (Descriptor, n, out, zstd_error))"
| "raw_decode Content_size (b # bs) space n out = raw_decode (Block_header []) bs space (Suc n) out"
| "raw_decode (Block_header acc) (b # bs) space n out =
     (if length acc < 2 then raw_decode (Block_header (acc @ [b])) bs space (Suc n) out
      else
        let v = unat (le32dec (acc @ [b, CHR 0x00]));
            final = odd v;
            type = (v div 2) mod 4;
            len = v div 8
        in if type \<noteq> 0 then (Block_header acc, n, out, zstd_error)
           else if len = 0 then
             (if final then (Magic [], Suc n, out, 0)
              else raw_decode (Block_header []) bs space (Suc n) out)
           else raw_decode (Raw len final) bs space (Suc n) out)"
| "raw_decode (Raw k final) (b # bs) space n out =
     (if space = 0 then (Raw k final, n, out, 1)
      else if k = 1 then
        (if final then (Magic [], Suc n, out @ [b], 0)
         else raw_decode (Block_header []) bs (space - 1) (Suc n) (out @ [b]))
      else raw_decode (Raw (k - 1) final) bs (space - 1) (Suc n) (out @ [b]))"

definition raw_engine :: "dctx engine" where
  "raw_engine =
     \<lparr>ZSTD_createDCtx = Magic [],
      ZSTD_DStreamInSize = 131075,
      ZSTD_DStreamOutSize = 131072,
      ZSTD_decompressStream = (\<lambda>d src space. raw_decode d src space 0 []),
      ZSTD_isError = (\<lambda>code. 2 ^ 64 - 120 < code)\<rparr>"

text \<open>The frame of the example: magic number, descriptor, content size 11, the header
  of a last raw block of 11 bytes, the text.\<close>

definition hello_frame :: "byte list" where
  "hello_frame =
     [CHR 0x28, CHR 0xB5, CHR 0x2F, CHR 0xFD, CHR 0x20, CHR 0x0B, CHR 0x59, CHR 0x00, CHR 0x00]
       @ ''hello world''"

definition file_of :: "byte list \<Rightarrow> FILE" where
  "file_of bs = \<lparr>contents = bs, fail_errno = None, fpos = 0, ferror = False, feof = False\<rparr>"

text \<open>The stream \<open>zstdopenfile\<close> makes of that file, and the stream after five bytes
  have been read from it.\<close>

definition hello_c0 :: "dctx zstdfile" where
  "hello_c0 =
     \<lparr>in_file = file_of hello_frame, logic_offset = 0, decode_offset = 0, actual_len = 0,
      outbuf_start = 0, decomp = Some (Magic []), inbuf = [], outbuf = [],
      inbuf_size = 131075, obuf_size = 131072, obuf_pos = 0, ibuf_size = 0, ibuf_pos = 0,
      eof = False, truncated = False\<rparr>"

definition hello_c1 :: "dctx zstdfile" where
  "hello_c1 =
     hello_c0\<lparr>in_file := (file_of hello_frame)\<lparr>fpos := 20, feof := True\<rparr>,
              logic_offset := 5, decode_offset := 5, actual_len := 11, outbuf_start := 5,
              inbuf := hello_frame, outbuf := ''hello world'', obuf_pos := 11,
              ibuf_size := 20, ibuf_pos := 20\<rparr>"

text \<open>The same frame cut off after the first six bytes of the text: the stream made of
  it, the stream after a read has met the end of the source, and the stream after the
  read that reported it.\<close>

definition trunc_frame :: "byte list" where
  "trunc_frame =
     [CHR 0x28, CHR 0xB5, CHR 0x2F, CHR 0xFD, CHR 0x20, CHR 0x0B, CHR 0x59, CHR 0x00, CHR 0x00]
       @ ''hello ''"

definition trunc_c0 :: "dctx zstdfile" where
  "trunc_c0 = hello_c0\<lparr>in_file := file_of trunc_frame\<rparr>"

definition trunc_c1 :: "dctx zstdfile" where
  "trunc_c1 =
     trunc_c0\<lparr>in_file := (file_of trunc_frame)\<lparr>fpos := 15, feof := True\<rparr>,
              logic_offset := 6, decode_offset := 6, actual_len := 6, outbuf_start := 6,
              decomp := Some (Raw 5 True), inbuf := trunc_frame, outbuf := ''hello '',
              obuf_pos := 6, ibuf_size := 15, ibuf_pos := 15, truncated := True\<rparr>"

definition trunc_c2 :: "dctx zstdfile" where
  "trunc_c2 = trunc_c1\<lparr>eof := True\<rparr>"

section \<open>Properties of the loops\<close>

text \<open>The body of the draining loop runs at most once: either the request is met, or the
  output buffer is left empty.\<close>

lemma drain_once:
  "drain r =
     (if outbuf_start (cookie r) < obuf_pos (cookie r) then
        (case skip_ignored r of (r1, left) \<Rightarrow>
           if 0 < ignorebytes r1 then r1 else deliver r1 left)
      else r)"
proof (cases "outbuf_start (cookie r) < obuf_pos (cookie r)")
  case False
  then show ?thesis by (subst drain.simps) simp
next
  case True
  obtain r1 left where sk: "skip_ignored r = (r1, left)" by (cases "skip_ignored r")
  show ?thesis
  proof (cases "size_r (deliver r1 left) = 0")
    case True
    with \<open>outbuf_start (cookie r) < obuf_pos (cookie r)\<close> sk show ?thesis
      by (subst drain.simps) (simp add: Let_def)
  next
    case False
    from deliver_empties [OF \<open>outbuf_start (cookie r) < obuf_pos (cookie r)\<close> sk False]
    have "drain (deliver r1 left) = deliver r1 left"
      by (subst drain.simps) simp
    with \<open>outbuf_start (cookie r) < obuf_pos (cookie r)\<close> sk show ?thesis
      by (subst drain.simps) (simp add: Let_def)
  qed
qed

lemma drain_no_skip:
  assumes "ignorebytes r = 0"
  shows "drain r =
     (if outbuf_start (cookie r) < obuf_pos (cookie r)
      then deliver r (obuf_pos (cookie r) - outbuf_start (cookie r)) else r)"
  using assms by (simp add: drain_once skip_ignored_def Let_def)

text \<open>Invariants of the two partial loops, by induction on the fixpoint: what holds before
  a loop and is kept by every pass holds of whatever the loop returns.\<close>

lemma read_loop_rule:
  assumes ret: "zstdfile_read_loop eng r = Some (Returns r')"
    and init: "P r"
    and again: "\<And>r r1. P r \<Longrightarrow> iteration eng r = Again r1 \<Longrightarrow> P r1"
    and out: "\<And>r r1. P r \<Longrightarrow> iteration eng r = Out r1 \<Longrightarrow> Q r1"
  shows "Q r'"
proof -
  let ?R = "\<lambda>e r y. e = eng \<longrightarrow> P r \<longrightarrow> (\<forall>r'. y = Returns r' \<longrightarrow> Q r')"
  have "?R eng r (Returns r')"
  proof (rule zstdfile_read_loop.raw_induct [where P = ?R, OF _ ret])
    fix loop :: "'a engine \<Rightarrow> 'a rd \<Rightarrow> 'a rd outcome option" and e r y
    assume IH: "\<And>e r y. loop e r = Some y \<Longrightarrow> ?R e r y"
      and body: "(case iteration e r of
                    Again r' \<Rightarrow> loop e r'
                  | Out r' \<Rightarrow> Some (Returns r')
                  | Stop a \<Rightarrow> Some (Abort a)) = Some y"
    show "?R e r y"
    proof (intro impI allI)
      fix r'
      assume e: "e = eng" and p: "P r" and y: "y = Returns r'"
      show "Q r'"
      proof (cases "iteration eng r")
        case (Again r1)
        with body e y have "loop eng r1 = Some (Returns r')" by simp
        from IH [OF this] again [OF p Again] show ?thesis by simp
      next
        case (Out r1)
        with body e y have "r1 = r'" by simp
        with out [OF p Out] show ?thesis by simp
      next
        case (Stop a)
        with body e y show ?thesis by simp
      qed
    qed
  qed
  with init show ?thesis by simp
qed

lemma seek_skip_rule:
  assumes ret: "seek_skip eng c errno n = Some (Returns (st, c', errno', n'))"
    and init: "P c"
    and step: "\<And>c e k r d c1 e1. P c \<Longrightarrow>
                 zstdfile_read eng c e k = Some (Returns (r, d, c1, e1)) \<Longrightarrow> P c1"
  shows "P c'"
proof -
  let ?R = "\<lambda>e c (errno :: int) (n :: off64_t) y. e = eng \<longrightarrow> P c \<longrightarrow>
              (\<forall>st c' errno' n'. y = Returns (st, c', errno', n') \<longrightarrow> P c')"
  have "?R eng c errno n (Returns (st, c', errno', n'))"
  proof (rule seek_skip.raw_induct [where P = ?R, OF _ ret])
    fix skip :: "'a engine \<Rightarrow> 'a zstdfile \<Rightarrow> int \<Rightarrow> off64_t
                   \<Rightarrow> (int \<times> 'a zstdfile \<times> int \<times> off64_t) outcome option"
      and e c errno n y
    assume IH: "\<And>e c errno n y. skip e c errno n = Some y \<Longrightarrow> ?R e c errno n y"
      and body: "(if logic_offset c < n then
        (case zstdfile_read e c errno (min bsz (unat (n - logic_offset c))) of
           None \<Rightarrow> None
         | Some (Abort a) \<Rightarrow> Some (Abort a)
         | Some (Returns (err, data, c', errno')) \<Rightarrow>
             if err < 0 then Some (Returns (- 1, c', errno', n))
             else if err = 0 then
               (if eof c' then Some (Returns (0, c', errno', logic_offset c'))
                else Some (Abort Assert_eof))
             else skip e c' errno' n)
      else Some (Returns (0, c, errno, n))) = Some y"
    show "?R e c errno n y"
    proof (intro impI allI)
      fix st c' errno' n'
      assume e: "e = eng" and p: "P c" and y: "y = Returns (st, c', errno', n')"
      show "P c'"
      proof (cases "logic_offset c < n")
        case False
        with body y p show ?thesis by simp
      next
        case True
        show ?thesis
        proof (cases "zstdfile_read eng c errno (min bsz (unat (n - logic_offset c)))")
          case None
          with body True e show ?thesis by simp
        next
          case (Some res)
          show ?thesis
          proof (cases res)
            case (Abort a)
            with body True e Some y show ?thesis by simp
          next
            case (Returns t)
            obtain err d c1 e1 where t: "t = (err, d, c1, e1)" by (cases t)
            from step [OF p] Some Returns t have p1: "P c1" by simp
            show ?thesis
            proof (cases "0 < err")
              case False
              with body True e Some Returns t y p1 show ?thesis
                by (auto split: if_splits)
            next
              case pos: True
              with body True e Some Returns t y
              have "skip eng c1 e1 n = Some (Returns (st, c', errno', n'))" by simp
              from IH [OF this] p1 show ?thesis by simp
            qed
          qed
        qed
      qed
    qed
  qed
  with init show ?thesis by simp
qed

text \<open>With \<open>ignorebytes\<close> at 0, as the assertion at the head of \<open>zstdfile_read\<close> makes it,
  draining is delivering.\<close>

lemma deliver_nothing: "deliver r 0 = r"
  by (simp add: deliver_def)

lemma drain_deliver:
  assumes "ignorebytes r = 0"
  shows "drain r = deliver r (obuf_pos (cookie r) - outbuf_start (cookie r))"
  using assms by (simp add: drain_no_skip deliver_nothing)

lemma decompress_not_Out: "decompress eng r \<noteq> Out r1"
  by (simp add: decompress_def Let_def split: option.splits prod.splits)

text \<open>An invariant of the \<open>do\<close> loop follows from its keeping by the parts of a pass.\<close>

lemma iteration_rule:
  assumes p: "P r"
    and drain: "\<And>r. P r \<Longrightarrow> P (drain r)"
    and at_eof: "\<And>r. P r \<Longrightarrow> Q (r\<lparr>cookie := (cookie r)\<lparr>eof := True\<rparr>\<rparr>)"
    and refill_again: "\<And>r r1. P r \<Longrightarrow> refill r = Again r1 \<Longrightarrow> P r1"
    and refill_out: "\<And>r r1. P r \<Longrightarrow> refill r = Out r1 \<Longrightarrow> Q r1"
    and decompress_again: "\<And>r r1. P r \<Longrightarrow> decompress eng r = Again r1 \<Longrightarrow> P r1"
    and leave: "\<And>r. P r \<Longrightarrow> Q r"
  shows "case iteration eng r of Again r1 \<Rightarrow> P r1 | Out r1 \<Rightarrow> Q r1 | Stop a \<Rightarrow> True"
proof -
  have d: "P (drain r)" by (rule drain [OF p])
  show ?thesis
  proof (cases "size_r (drain r) = 0
      \<or> obuf_pos (cookie (drain r)) \<noteq> outbuf_start (cookie (drain r)) \<or> ret (drain r) = 0")
    case True
    with leave [OF d] at_eof [OF d] show ?thesis
      by (auto simp: iteration_def Let_def)
  next
    case False
    then have it: "iteration eng r =
      (case refill (drain r) of
              Again r2 \<Rightarrow>
                (case decompress eng r2 of
                   Again r3 \<Rightarrow>
                     if \<not> ferror (in_file (cookie r3)) \<and> 0 < size_r r3 then Again r3 else Out r3
                 | Out r3 \<Rightarrow> Out r3
                 | Stop a \<Rightarrow> Stop a)
            | Out r2 \<Rightarrow> Out r2
            | Stop a \<Rightarrow> Stop a)"
      by (simp add: iteration_def Let_def)
    show ?thesis
    proof (cases "refill (drain r)")
      case (Again r2)
      from refill_again [OF d Again] have p2: "P r2" .
      show ?thesis
      proof (cases "decompress eng r2")
        case dec: (Again r3)
        from decompress_again [OF p2 dec] have "P r3" .
        with leave [OF this] it Again dec show ?thesis by simp
      next
        case (Out r3)
        then show ?thesis by (simp add: decompress_not_Out)
      next
        case (Stop a)
        with it Again show ?thesis by simp
      qed
    next
      case (Out r2)
      with refill_out [OF d Out] it show ?thesis by simp
    next
      case (Stop a)
      with it show ?thesis by simp
    qed
  qed
qed

lemma read_loop_invariant:
  assumes ret: "zstdfile_read_loop eng r = Some (Returns r')"
    and p: "P r"
    and drain: "\<And>r. P r \<Longrightarrow> P (drain r)"
    and at_eof: "\<And>r. P r \<Longrightarrow> Q (r\<lparr>cookie := (cookie r)\<lparr>eof := True\<rparr>\<rparr>)"
    and refill_again: "\<And>r r1. P r \<Longrightarrow> refill r = Again r1 \<Longrightarrow> P r1"
    and refill_out: "\<And>r r1. P r \<Longrightarrow> refill r = Out r1 \<Longrightarrow> Q r1"
    and decompress_again: "\<And>r r1. P r \<Longrightarrow> decompress eng r = Again r1 \<Longrightarrow> P r1"
    and leave: "\<And>r. P r \<Longrightarrow> Q r"
  shows "Q r'"
proof (rule read_loop_rule [where P = P and Q = Q, OF ret p])
  fix r r1
  assume "P r" and "iteration eng r = Again r1"
  with iteration_rule [where P = P and Q = Q and eng = eng and r = r,
      OF _ drain at_eof refill_again refill_out decompress_again leave]
  show "P r1" by simp
next
  fix r r1
  assume "P r" and "iteration eng r = Out r1"
  with iteration_rule [where P = P and Q = Q and eng = eng and r = r,
      OF _ drain at_eof refill_again refill_out decompress_again leave]
  show "Q r1" by simp
qed

text \<open>What the parts of a pass change.\<close>

lemma deliver_fields:
  "ignorebytes (deliver r l) = ignorebytes r"
  "errno_r (deliver r l) = errno_r r"
  "ret (deliver r l) = ret r"
  "total (deliver r l) = total r + min l (size_r r)"
  "buf (deliver r l) =
     buf r @ take (min l (size_r r)) (drop (outbuf_start (cookie r)) (outbuf (cookie r)))"
  "in_file (cookie (deliver r l)) = in_file (cookie r)"
  "truncated (cookie (deliver r l)) = truncated (cookie r)"
  "eof (cookie (deliver r l)) = eof (cookie r)"
  "obuf_pos (cookie (deliver r l)) = obuf_pos (cookie r)"
  "outbuf (cookie (deliver r l)) = outbuf (cookie r)"
  "decode_offset (cookie (deliver r l)) = decode_offset (cookie r) + of_nat (min l (size_r r))"
  "logic_offset (cookie (deliver r l)) = logic_offset (cookie r) + of_nat (min l (size_r r))"
  by (simp_all add: deliver_def Let_def)

lemma fread_source:
  assumes "fread f n e = (got, f', e')"
  shows "contents f' = contents f" and "fail_errno f' = fail_errno f"
    and "ferror f' \<or> e' = e"
  using assms by (auto simp: fread_def Let_def split: if_splits option.splits)

lemma refill_Again:
  assumes "refill r = Again r1"
  obtains f' b p s where
    "r1 = r\<lparr>cookie := (cookie r)\<lparr>in_file := f', inbuf := b, ibuf_pos := p, ibuf_size := s\<rparr>\<rparr>"
    "contents f' = contents (in_file (cookie r))"
    "fail_errno f' = fail_errno (in_file (cookie r))"
proof (cases "ibuf_pos (cookie r) = ibuf_size (cookie r)")
  case False
  with assms have "r1 = r" by (simp add: refill_def)
  then have "r1 = r\<lparr>cookie := (cookie r)\<lparr>in_file := in_file (cookie r), inbuf := inbuf (cookie r),
      ibuf_pos := ibuf_pos (cookie r), ibuf_size := ibuf_size (cookie r)\<rparr>\<rparr>" by simp
  then show ?thesis by (rule that) simp_all
next
  case True
  obtain got f' e' where fr: "fread (in_file (cookie r)) (inbuf_size (cookie r)) (errno_r r) = (got, f', e')"
    by (cases "fread (in_file (cookie r)) (inbuf_size (cookie r)) (errno_r r)")
  from fread_source [OF fr] have src: "contents f' = contents (in_file (cookie r))"
    "fail_errno f' = fail_errno (in_file (cookie r))" and e: "ferror f' \<or> e' = errno_r r" by simp_all
  from assms True fr have nf: "\<not> ferror f'"
    by (auto simp: refill_def Let_def split: if_splits)
  with e have "e' = errno_r r" by simp
  with assms True fr nf have "r1 = r\<lparr>cookie := (cookie r)\<lparr>in_file := f',
      inbuf := store (inbuf (cookie r)) got, ibuf_pos := 0, ibuf_size := length got\<rparr>\<rparr>"
    by (auto simp: refill_def Let_def split: if_splits)
  then show ?thesis using src by (rule that)
qed

lemma refill_Out:
  assumes "refill r = Out r1"
  obtains f' b e' where
    "r1 = r\<lparr>errno_r := e', cookie := (cookie r)\<lparr>in_file := f', inbuf := b, truncated := True\<rparr>\<rparr>"
    "contents f' = contents (in_file (cookie r))"
    "fail_errno f' = fail_errno (in_file (cookie r))"
proof (cases "ibuf_pos (cookie r) = ibuf_size (cookie r)")
  case False
  with assms show ?thesis by (simp add: refill_def)
next
  case True
  obtain got f' e' where fr: "fread (in_file (cookie r)) (inbuf_size (cookie r)) (errno_r r) = (got, f', e')"
    by (cases "fread (in_file (cookie r)) (inbuf_size (cookie r)) (errno_r r)")
  from fread_source [OF fr] have src: "contents f' = contents (in_file (cookie r))"
    "fail_errno f' = fail_errno (in_file (cookie r))" by simp_all
  from assms True fr have "r1 = r\<lparr>errno_r := e', cookie := (cookie r)\<lparr>in_file := f',
      inbuf := store (inbuf (cookie r)) got, truncated := True\<rparr>\<rparr>"
    by (auto simp: refill_def Let_def split: if_splits)
  then show ?thesis using src by (rule that)
qed

lemma decompress_Again:
  assumes "decompress eng r = Again r1"
  obtains d p produced a rt where
    "r1 = r\<lparr>ret := rt, cookie := (cookie r)\<lparr>obuf_pos := length produced, outbuf_start := 0,
       decomp := d, ibuf_pos := p, outbuf := store (outbuf (cookie r)) produced, actual_len := a\<rparr>\<rparr>"
proof (cases "decomp (cookie r)")
  case None
  with assms show ?thesis by (simp add: decompress_def Let_def)
next
  case (Some d)
  let ?c = "(cookie r)\<lparr>obuf_pos := 0, outbuf_start := 0\<rparr>"
  obtain d' consumed produced ret' where dec: "ZSTD_decompressStream eng d
       (take (ibuf_size ?c - ibuf_pos ?c) (drop (ibuf_pos ?c) (inbuf ?c)))
       (obuf_size ?c - obuf_pos ?c) = (d', consumed, produced, ret')"
    by (cases "ZSTD_decompressStream eng d
       (take (ibuf_size ?c - ibuf_pos ?c) (drop (ibuf_pos ?c) (inbuf ?c)))
       (obuf_size ?c - obuf_pos ?c)")
  from assms Some dec have "r1 = r\<lparr>ret := ret', cookie := (cookie r)\<lparr>obuf_pos := length produced,
       outbuf_start := 0, decomp := Some d', ibuf_pos := ibuf_pos (cookie r) + consumed,
       outbuf := store (outbuf (cookie r)) produced,
       actual_len := actual_len (cookie r) + of_nat (length produced)\<rparr>\<rparr>"
    by (auto simp: decompress_def Let_def split: if_splits)
  then show ?thesis by (rule that)
qed

text \<open>The three ways a read returns: at once, through the error path alone, or through
  the loop.\<close>

lemma zstdfile_read_Returns:
  assumes "zstdfile_read eng c e n = Some (Returns res)"
  obtains (nothing) "n = 0 \<or> eof c" and "res = (0, [], c, e)"
  | (failed) "0 < n" and "\<not> eof c" and "truncated c"
      and "zstdfile_read_out c e [] 0 = Returns res"
  | (looped) r' where "0 < n" and "n \<le> SSIZE_MAX" and "\<not> eof c" and "\<not> truncated c"
      and "logic_offset c = decode_offset c"
      and "zstdfile_read_loop eng
             \<lparr>cookie = c, errno_r = e, buf = [], size_r = n, total = 0, ret = 1,
              ignorebytes = 0\<rparr> = Some (Returns r')"
      and "zstdfile_read_out (cookie r') (errno_r r') (buf r') (total r') = Returns res"
proof -
  from assms have size: "n \<le> SSIZE_MAX"
    by (auto simp: zstdfile_read_def split: if_splits)
  show ?thesis
  proof (cases "n = 0 \<or> eof c")
    case True
    with assms size have "res = (0, [], c, e)"
      by (auto simp: zstdfile_read_def split: if_splits)
    with True show ?thesis by (rule nothing)
  next
    case False
    then have n: "0 < n" and ne: "\<not> eof c" by simp_all
    show ?thesis
    proof (cases "truncated c")
      case True
      with assms size n ne have "zstdfile_read_out c e [] 0 = Returns res"
        by (simp add: zstdfile_read_def)
      with n ne True show ?thesis by (rule failed)
    next
      case False
      from assms size n ne False have ign: "unat (logic_offset c - decode_offset c) = 0"
        by (auto simp: zstdfile_read_def Let_def split: if_splits)
      then have eq: "logic_offset c = decode_offset c"
        by (simp add: unat_eq_0)
      let ?r = "\<lparr>cookie = c, errno_r = e, buf = [], size_r = n, total = 0, ret = 1,
              ignorebytes = 0\<rparr>"
      from assms size n ne False ign
      have "(case zstdfile_read_loop eng ?r of
                None \<Rightarrow> None
              | Some (Abort a) \<Rightarrow> Some (Abort a)
              | Some (Returns r) \<Rightarrow>
                  Some (zstdfile_read_out (cookie r) (errno_r r) (buf r) (total r)))
            = Some (Returns res)"
        by (simp add: zstdfile_read_def Let_def)
      then obtain r' where "zstdfile_read_loop eng ?r = Some (Returns r')"
        and "zstdfile_read_out (cookie r') (errno_r r') (buf r') (total r') = Returns res"
        by (auto split: option.splits outcome.splits)
      with n size ne False eq show ?thesis by (rule looped)
    qed
  qed
qed

lemma zstdfile_read_out_Returns:
  assumes "zstdfile_read_out c e b t = Returns (r, d, c', e')"
  shows "d = b"
    and "0 < t \<Longrightarrow> r = int t \<and> c' = c \<and> e' = e"
    and "t = 0 \<Longrightarrow> truncated c \<Longrightarrow> r = - 1 \<and> c' = c\<lparr>eof := True\<rparr> \<and> e' = ENOBUFS"
    and "t = 0 \<Longrightarrow> \<not> truncated c \<Longrightarrow> r = 0 \<and> c' = c \<and> e' = e"
  using assms by (auto simp: zstdfile_read_out_def split: if_splits)

lemma zstdfile_read_out_cookie:
  assumes "zstdfile_read_out c e b t = Returns (r, d, c', e')"
  shows "c' = c \<or> c' = c\<lparr>eof := True\<rparr>"
  using assms by (auto simp: zstdfile_read_out_def split: if_splits)

text \<open>The two offsets move together.\<close>

lemma read_loop_offsets:
  assumes "zstdfile_read_loop eng r = Some (Returns r')"
    and "ignorebytes r = 0" and "decode_offset (cookie r) = logic_offset (cookie r)"
  shows "decode_offset (cookie r') = logic_offset (cookie r')"
proof (rule read_loop_invariant [where
      P = "\<lambda>r. ignorebytes r = 0 \<and> decode_offset (cookie r) = logic_offset (cookie r)"
      and Q = "\<lambda>r. decode_offset (cookie r) = logic_offset (cookie r)", OF assms(1)])
  show "ignorebytes r = 0 \<and> decode_offset (cookie r) = logic_offset (cookie r)"
    using assms by simp
next
  fix r :: "'a rd"
  assume "ignorebytes r = 0 \<and> decode_offset (cookie r) = logic_offset (cookie r)"
  then show "ignorebytes (drain r) = 0 \<and>
      decode_offset (cookie (drain r)) = logic_offset (cookie (drain r))"
    by (simp add: drain_deliver deliver_fields)
next
  fix r r1 :: "'a rd"
  assume "ignorebytes r = 0 \<and> decode_offset (cookie r) = logic_offset (cookie r)"
    and "refill r = Again r1"
  then show "ignorebytes r1 = 0 \<and> decode_offset (cookie r1) = logic_offset (cookie r1)"
    by (auto elim!: refill_Again)
next
  fix r r1 :: "'a rd"
  assume "ignorebytes r = 0 \<and> decode_offset (cookie r) = logic_offset (cookie r)"
    and "refill r = Out r1"
  then show "decode_offset (cookie r1) = logic_offset (cookie r1)"
    by (auto elim!: refill_Out)
next
  fix r r1 :: "'a rd"
  assume "ignorebytes r = 0 \<and> decode_offset (cookie r) = logic_offset (cookie r)"
    and "decompress eng r = Again r1"
  then show "ignorebytes r1 = 0 \<and> decode_offset (cookie r1) = logic_offset (cookie r1)"
    by (auto elim!: decompress_Again)
qed simp_all

lemma zstdfile_read_offsets:
  assumes "zstdfile_read eng c e n = Some (Returns (r, d, c', e'))"
    and "decode_offset c = logic_offset c"
  shows "decode_offset c' = logic_offset c'"
  using assms(1)
proof (cases rule: zstdfile_read_Returns)
  case nothing
  with assms(2) show ?thesis by simp
next
  case failed
  from zstdfile_read_out_cookie [OF failed(4)] assms(2) show ?thesis by auto
next
  case (looped r')
  from read_loop_offsets [OF looped(6)] assms(2)
  have "decode_offset (cookie r') = logic_offset (cookie r')" by simp
  with zstdfile_read_out_cookie [OF looped(7)] show ?thesis by auto
qed

text \<open>Reading moves the source along and never changes what it holds.\<close>

lemma read_loop_source:
  assumes "zstdfile_read_loop eng r = Some (Returns r')"
    and "ignorebytes r = 0"
  shows "contents (in_file (cookie r')) = contents (in_file (cookie r))
       \<and> fail_errno (in_file (cookie r')) = fail_errno (in_file (cookie r))"
proof (rule read_loop_invariant [where
      P = "\<lambda>x. ignorebytes x = 0 \<and> contents (in_file (cookie x)) = contents (in_file (cookie r))
                \<and> fail_errno (in_file (cookie x)) = fail_errno (in_file (cookie r))"
      and Q = "\<lambda>x. contents (in_file (cookie x)) = contents (in_file (cookie r))
                \<and> fail_errno (in_file (cookie x)) = fail_errno (in_file (cookie r))",
      OF assms(1)])
  fix x :: "'a rd"
  assume "ignorebytes x = 0 \<and> contents (in_file (cookie x)) = contents (in_file (cookie r))
                \<and> fail_errno (in_file (cookie x)) = fail_errno (in_file (cookie r))"
  then show "ignorebytes (drain x) = 0
      \<and> contents (in_file (cookie (drain x))) = contents (in_file (cookie r))
      \<and> fail_errno (in_file (cookie (drain x))) = fail_errno (in_file (cookie r))"
    by (simp add: drain_deliver deliver_fields)
next
  fix x r1 :: "'a rd"
  assume "ignorebytes x = 0 \<and> contents (in_file (cookie x)) = contents (in_file (cookie r))
                \<and> fail_errno (in_file (cookie x)) = fail_errno (in_file (cookie r))"
    and "refill x = Again r1"
  then show "ignorebytes r1 = 0 \<and> contents (in_file (cookie r1)) = contents (in_file (cookie r))
                \<and> fail_errno (in_file (cookie r1)) = fail_errno (in_file (cookie r))"
    by (auto elim!: refill_Again)
next
  fix x r1 :: "'a rd"
  assume "ignorebytes x = 0 \<and> contents (in_file (cookie x)) = contents (in_file (cookie r))
                \<and> fail_errno (in_file (cookie x)) = fail_errno (in_file (cookie r))"
    and "refill x = Out r1"
  then show "contents (in_file (cookie r1)) = contents (in_file (cookie r))
                \<and> fail_errno (in_file (cookie r1)) = fail_errno (in_file (cookie r))"
    by (auto elim!: refill_Out)
next
  fix x r1 :: "'a rd"
  assume "ignorebytes x = 0 \<and> contents (in_file (cookie x)) = contents (in_file (cookie r))
                \<and> fail_errno (in_file (cookie x)) = fail_errno (in_file (cookie r))"
    and "decompress eng x = Again r1"
  then show "ignorebytes r1 = 0 \<and> contents (in_file (cookie r1)) = contents (in_file (cookie r))
                \<and> fail_errno (in_file (cookie r1)) = fail_errno (in_file (cookie r))"
    by (auto elim!: decompress_Again)
qed (simp_all add: assms(2))

lemma zstdfile_read_source:
  assumes "zstdfile_read eng c e n = Some (Returns (r, d, c', e'))"
  shows "contents (in_file c') = contents (in_file c)
       \<and> fail_errno (in_file c') = fail_errno (in_file c)"
  using assms
proof (cases rule: zstdfile_read_Returns)
  case nothing
  then show ?thesis by simp
next
  case failed
  from zstdfile_read_out_cookie [OF failed(4)] show ?thesis by auto
next
  case (looped r')
  from read_loop_source [OF looped(6)]
  have "contents (in_file (cookie r')) = contents (in_file c)
       \<and> fail_errno (in_file (cookie r')) = fail_errno (in_file c)" by simp
  with zstdfile_read_out_cookie [OF looped(7)] show ?thesis by auto
qed

text \<open>What a returning \<open>zstdfile_seek\<close> went through.\<close>

lemma zstdfile_seek_Returns:
  assumes "zstdfile_seek eng c e offset whence = Some (Returns (r, c', off', e'))"
  obtains (rejected) "c' = c"
  | (rewound) "c' = zstdfile_init eng ((zstdfile_cleanup c)\<lparr>in_file := rewind (in_file c)\<rparr>)"
  | (skipped) st n n' where "seek_skip eng c e n = Some (Returns (st, c', e', n'))"
proof -
  let ?n = "seek_target c offset whence"
  show ?thesis
  proof (cases "(whence \<noteq> SEEK_SET \<and> whence \<noteq> SEEK_CUR) \<or> sint ?n < 0
      \<or> (sint ?n < sint (logic_offset c) \<and> ?n \<noteq> 0)")
    case True
    with assms have "c' = c"
      by (auto simp: zstdfile_seek_def Let_def split: if_splits)
    then show ?thesis by (rule rejected)
  next
    case False
    then have "\<not> (whence \<noteq> SEEK_SET \<and> whence \<noteq> SEEK_CUR)" and "\<not> sint ?n < 0"
      and "\<not> (sint ?n < sint (logic_offset c) \<and> ?n \<noteq> 0)"
      by auto
    then have seek: "zstdfile_seek eng c e offset whence =
        (if ?n = 0
         then seek_done (zstdfile_init eng ((zstdfile_cleanup c)\<lparr>in_file := rewind (in_file c)\<rparr>))
                e ?n
         else if logic_offset c < ?n then
           (case seek_skip eng c e ?n of
              None \<Rightarrow> None
            | Some (Abort a) \<Rightarrow> Some (Abort a)
            | Some (Returns (st, c', errno', new_offset')) \<Rightarrow>
                if st < 0 then Some (Returns (- 1, c', offset, errno'))
                else seek_done c' errno' new_offset')
         else seek_done c e ?n)"
      by (auto simp: zstdfile_seek_def Let_def)
    show ?thesis
    proof (cases "?n = 0")
      case True
      with seek assms
      have "c' = zstdfile_init eng ((zstdfile_cleanup c)\<lparr>in_file := rewind (in_file c)\<rparr>)"
        by (auto simp: seek_done_def split: if_splits)
      then show ?thesis by (rule rewound)
    next
      case nz: False
      show ?thesis
      proof (cases "logic_offset c < ?n")
        case True
        with seek nz assms
        have "(case seek_skip eng c e ?n of
             None \<Rightarrow> None
           | Some (Abort a) \<Rightarrow> Some (Abort a)
           | Some (Returns (st, c', errno', new_offset')) \<Rightarrow>
               if st < 0 then Some (Returns (- 1, c', offset, errno'))
               else seek_done c' errno' new_offset') = Some (Returns (r, c', off', e'))"
          by simp
        then obtain st n' where "seek_skip eng c e ?n = Some (Returns (st, c', e', n'))"
          by (auto simp: seek_done_def split: option.splits outcome.splits prod.splits if_splits)
        then show ?thesis by (rule skipped)
      next
        case no: False
        with seek nz assms have "c' = c"
          by (auto simp: seek_done_def split: if_splits)
        then show ?thesis by (rule rejected)
      qed
    qed
  qed
qed

lemma zstdfile_seek_offsets:
  assumes "zstdfile_seek eng c e offset whence = Some (Returns (r, c', off', e'))"
    and "decode_offset c = logic_offset c"
  shows "decode_offset c' = logic_offset c'"
  using assms(1)
proof (cases rule: zstdfile_seek_Returns)
  case rejected
  with assms(2) show ?thesis by simp
next
  case rewound
  then show ?thesis by (simp add: zstdfile_init_def)
next
  case (skipped st n n')
  show ?thesis
    by (rule seek_skip_rule [where P = "\<lambda>c. decode_offset c = logic_offset c", OF skipped assms(2)])
       (rule zstdfile_read_offsets)
qed

lemma zstdfile_seek_source:
  assumes "zstdfile_seek eng c e offset whence = Some (Returns (r, c', off', e'))"
  shows "contents (in_file c') = contents (in_file c)
       \<and> fail_errno (in_file c') = fail_errno (in_file c)"
  using assms
proof (cases rule: zstdfile_seek_Returns)
  case rejected
  then show ?thesis by simp
next
  case rewound
  then show ?thesis by (simp add: zstdfile_init_def zstdfile_cleanup_def rewind_def)
next
  case (skipped st n n')
  show ?thesis
  proof (rule seek_skip_rule [where P = "\<lambda>x. contents (in_file x) = contents (in_file c)
       \<and> fail_errno (in_file x) = fail_errno (in_file c)", OF skipped])
    fix x k r d c1 and ea e1 :: int
    assume "contents (in_file x) = contents (in_file c)
       \<and> fail_errno (in_file x) = fail_errno (in_file c)"
      and "zstdfile_read eng x ea k = Some (Returns (r, d, c1, e1))"
    with zstdfile_read_source [of eng x ea k r d c1 e1]
    show "contents (in_file c1) = contents (in_file c)
       \<and> fail_errno (in_file c1) = fail_errno (in_file c)" by simp
  qed simp
qed

lemma length_store: "length xs \<le> length (store buffer xs)"
  by (simp add: store_def)

text \<open>What was stored in the caller's buffer is as long as \<open>total\<close> says, the output
  cursor stays inside the output buffer, and \<open>errno\<close> changes only where the stream is
  found truncated.\<close>

lemma read_loop_count:
  assumes "zstdfile_read_loop eng r = Some (Returns r')"
    and "ignorebytes r = 0" and "length (buf r) = total r"
    and "obuf_pos (cookie r) \<le> length (outbuf (cookie r))"
  shows "length (buf r') = total r'
       \<and> obuf_pos (cookie r') \<le> length (outbuf (cookie r'))
       \<and> (errno_r r' = errno_r r \<or> truncated (cookie r'))"
proof (rule read_loop_invariant [where
      P = "\<lambda>x. ignorebytes x = 0 \<and> length (buf x) = total x
                \<and> obuf_pos (cookie x) \<le> length (outbuf (cookie x))
                \<and> (errno_r x = errno_r r \<or> truncated (cookie x))"
      and Q = "\<lambda>x. length (buf x) = total x
                \<and> obuf_pos (cookie x) \<le> length (outbuf (cookie x))
                \<and> (errno_r x = errno_r r \<or> truncated (cookie x))",
      OF assms(1)])
  fix x :: "'a rd"
  assume "ignorebytes x = 0 \<and> length (buf x) = total x
                \<and> obuf_pos (cookie x) \<le> length (outbuf (cookie x))
                \<and> (errno_r x = errno_r r \<or> truncated (cookie x))"
  then show "ignorebytes (drain x) = 0 \<and> length (buf (drain x)) = total (drain x)
                \<and> obuf_pos (cookie (drain x)) \<le> length (outbuf (cookie (drain x)))
                \<and> (errno_r (drain x) = errno_r r \<or> truncated (cookie (drain x)))"
    by (auto simp: drain_deliver deliver_fields)
next
  fix x r1 :: "'a rd"
  assume "ignorebytes x = 0 \<and> length (buf x) = total x
                \<and> obuf_pos (cookie x) \<le> length (outbuf (cookie x))
                \<and> (errno_r x = errno_r r \<or> truncated (cookie x))"
    and "refill x = Again r1"
  then show "ignorebytes r1 = 0 \<and> length (buf r1) = total r1
                \<and> obuf_pos (cookie r1) \<le> length (outbuf (cookie r1))
                \<and> (errno_r r1 = errno_r r \<or> truncated (cookie r1))"
    by (auto elim!: refill_Again)
next
  fix x r1 :: "'a rd"
  assume "ignorebytes x = 0 \<and> length (buf x) = total x
                \<and> obuf_pos (cookie x) \<le> length (outbuf (cookie x))
                \<and> (errno_r x = errno_r r \<or> truncated (cookie x))"
    and "refill x = Out r1"
  then show "length (buf r1) = total r1
                \<and> obuf_pos (cookie r1) \<le> length (outbuf (cookie r1))
                \<and> (errno_r r1 = errno_r r \<or> truncated (cookie r1))"
    by (auto elim!: refill_Out)
next
  fix x r1 :: "'a rd"
  assume "ignorebytes x = 0 \<and> length (buf x) = total x
                \<and> obuf_pos (cookie x) \<le> length (outbuf (cookie x))
                \<and> (errno_r x = errno_r r \<or> truncated (cookie x))"
    and "decompress eng x = Again r1"
  then show "ignorebytes r1 = 0 \<and> length (buf r1) = total r1
                \<and> obuf_pos (cookie r1) \<le> length (outbuf (cookie r1))
                \<and> (errno_r r1 = errno_r r \<or> truncated (cookie r1))"
    by (auto elim!: decompress_Again simp: length_store)
qed (simp_all add: assms)

text \<open>Reads on a stream with \<open>eof\<close> set, and the read that sets it after a truncation.\<close>

lemma read_at_eof:
  assumes "eof c" and "n \<le> SSIZE_MAX"
  shows "zstdfile_read eng c e n = Some (Returns (0, [], c, e))"
  using assms by (simp add: zstdfile_read_def)

lemma reads_at_eof:
  assumes "eof c" and "\<forall>k \<in> set ns. k \<le> SSIZE_MAX"
  shows "run eng c e (map Read ns) =
           Some (Returns (map (\<lambda>k. Read_reply 0 [] (logic_offset c) e) ns, c, e))"
  using assms by (induction ns) (simp_all add: read_at_eof)

lemma read_when_truncated:
  assumes "truncated c" and "\<not> eof c" and "0 < n" and "n \<le> SSIZE_MAX"
  shows "zstdfile_read eng c e n = Some (Returns (- 1, [], c\<lparr>eof := True\<rparr>, ENOBUFS))"
  using assms by (simp add: zstdfile_read_def zstdfile_read_out_def SSIZE_MAX_def)

text \<open>No pass of the loop fails the assertion on \<open>ignorebytes\<close>; that one is made before
  the loop.\<close>

lemma refill_Stop: "refill r = Stop a \<Longrightarrow> a = Exit_read_error"
  by (auto simp: refill_def Let_def split: if_splits prod.splits)

lemma decompress_Stop: "decompress eng r = Stop a \<Longrightarrow> a = Null_context \<or> a = Exit_zstd_error"
  by (auto simp: decompress_def Let_def split: if_splits prod.splits option.splits)

lemma iteration_Stop:
  assumes "iteration eng r = Stop a"
  shows "a \<noteq> Assert_ignorebytes"
proof (cases "size_r (drain r) = 0
      \<or> obuf_pos (cookie (drain r)) \<noteq> outbuf_start (cookie (drain r)) \<or> ret (drain r) = 0")
  case True
  with assms show ?thesis
    by (auto simp: iteration_def Let_def split: if_splits)
next
  case False
  with assms have it: "(case refill (drain r) of
              Again r2 \<Rightarrow>
                (case decompress eng r2 of
                   Again r3 \<Rightarrow>
                     if \<not> ferror (in_file (cookie r3)) \<and> 0 < size_r r3 then Again r3 else Out r3
                 | Out r3 \<Rightarrow> Out r3
                 | Stop a \<Rightarrow> Stop a)
            | Out r2 \<Rightarrow> Out r2
            | Stop a \<Rightarrow> Stop a) = Stop a"
    by (simp add: iteration_def Let_def)
  show ?thesis
  proof (cases "refill (drain r)")
    case (Again r2)
    with it have "decompress eng r2 = Stop a"
      by (auto split: flow.splits if_splits)
    from decompress_Stop [OF this] show ?thesis by auto
  next
    case (Out r2)
    with it show ?thesis by simp
  next
    case (Stop b)
    with it refill_Stop [OF Stop] show ?thesis by simp
  qed
qed

lemma read_loop_Abort:
  assumes "zstdfile_read_loop eng r = Some (Abort a)"
  shows "a \<noteq> Assert_ignorebytes"
proof -
  let ?R = "\<lambda>(e :: 'a engine) (r :: 'a rd) y. y \<noteq> Abort Assert_ignorebytes"
  have "Abort a \<noteq> (Abort Assert_ignorebytes :: 'a rd outcome)"
  proof (rule zstdfile_read_loop.raw_induct [where P = ?R, OF _ assms])
    fix loop :: "'a engine \<Rightarrow> 'a rd \<Rightarrow> 'a rd outcome option" and e r y
    assume IH: "\<And>e r y. loop e r = Some y \<Longrightarrow> ?R e r y"
      and body: "(case iteration e r of
                    Again r' \<Rightarrow> loop e r'
                  | Out r' \<Rightarrow> Some (Returns r')
                  | Stop a \<Rightarrow> Some (Abort a)) = Some y"
    show "?R e r y"
    proof (cases "iteration e r")
      case (Again r1)
      with body IH show ?thesis by simp
    next
      case (Out r1)
      with body show ?thesis by auto
    next
      case (Stop b)
      with body iteration_Stop [OF Stop] show ?thesis by auto
    qed
  qed
  then show ?thesis by simp
qed

lemma read_assertion_holds:
  assumes "decode_offset c = logic_offset c"
  shows "zstdfile_read eng c e n \<noteq> Some (Abort Assert_ignorebytes)"
proof
  assume a: "zstdfile_read eng c e n = Some (Abort Assert_ignorebytes)"
  let ?r = "\<lparr>cookie = c, errno_r = e, buf = [], size_r = n, total = 0, ret = 1,
              ignorebytes = 0\<rparr>"
  from assms have ign: "unat (logic_offset c - decode_offset c) = 0" by simp
  from a have size: "n \<le> SSIZE_MAX" "n \<noteq> 0" "\<not> eof c"
    by (auto simp: zstdfile_read_def split: if_splits)
  show False
  proof (cases "truncated c")
    case True
    with a size show False
      by (simp add: zstdfile_read_def zstdfile_read_out_def SSIZE_MAX_def)
  next
    case False
    with a size ign
    have "(case zstdfile_read_loop eng ?r of
                None \<Rightarrow> None
              | Some (Abort a) \<Rightarrow> Some (Abort a)
              | Some (Returns r) \<Rightarrow>
                  Some (zstdfile_read_out (cookie r) (errno_r r) (buf r) (total r)))
           = Some (Abort Assert_ignorebytes)"
      by (simp add: zstdfile_read_def Let_def)
    then have "zstdfile_read_loop eng ?r = Some (Abort Assert_ignorebytes)"
      by (auto simp: zstdfile_read_out_def split: if_splits option.splits outcome.splits)
    from read_loop_Abort [OF this] show False by simp
  qed
qed

text \<open>What every read and every seek keeps, a list of calls keeps.\<close>

lemma run_invariant:
  assumes "run eng c e ops = Some (Returns (rs, c', e'))"
    and "P c"
    and "\<And>c e n r d c1 e1. P c \<Longrightarrow> zstdfile_read eng c e n = Some (Returns (r, d, c1, e1)) \<Longrightarrow> P c1"
    and "\<And>c e offset whence r c1 off1 e1. P c \<Longrightarrow>
           zstdfile_seek eng c e offset whence = Some (Returns (r, c1, off1, e1)) \<Longrightarrow> P c1"
  shows "P c'"
  using assms(1,2)
proof (induction ops arbitrary: c e rs)
  case Nil
  then show ?case by simp
next
  case (Cons x ops)
  show ?case
  proof (cases x)
    case (Read n)
    with Cons.prems(1) obtain r d c1 e1 rs1
      where "zstdfile_read eng c e n = Some (Returns (r, d, c1, e1))"
        and "run eng c1 e1 ops = Some (Returns (rs1, c', e'))"
      by (auto split: option.splits outcome.splits)
    with Cons.IH [of c1 e1 rs1] assms(3) [OF Cons.prems(2)] show ?thesis by blast
  next
    case (Seek offset whence)
    with Cons.prems(1) obtain r c1 off1 e1 rs1
      where "zstdfile_seek eng c e offset whence = Some (Returns (r, c1, off1, e1))"
        and "run eng c1 e1 ops = Some (Returns (rs1, c', e'))"
      by (auto split: option.splits outcome.splits)
    with Cons.IH [of c1 e1 rs1] assms(4) [OF Cons.prems(2)] show ?thesis by blast
  qed
qed

text \<open>The state a successful wrapping starts from, and the state a seek to 0 gives.\<close>

lemma open_Cookie:
  assumes "zstdopenfile eng f mode w e0 = (Cookie c0, f', w', e1)"
  shows "c0 =
     \<lparr>in_file = \<lparr>contents = contents f, fail_errno = fail_errno f,
                 fpos = 0, ferror = False, feof = False\<rparr>,
      logic_offset = 0, decode_offset = 0, actual_len = 0, outbuf_start = 0,
      decomp = Some (ZSTD_createDCtx eng), inbuf = [], outbuf = [],
      inbuf_size = ZSTD_DStreamInSize eng, obuf_size = ZSTD_DStreamOutSize eng,
      obuf_pos = 0, ibuf_size = 0, ibuf_pos = 0, eof = False, truncated = False\<rparr>"
proof -
  obtain hdr in1 errno1 where fr: "fread f 4 e0 = (hdr, in1, errno1)"
    by (cases "fread f 4 e0")
  from fread_source [OF fr] have "contents in1 = contents f" and "fail_errno in1 = fail_errno f"
    by simp_all
  then have rw: "rewind in1 = \<lparr>contents = contents f, fail_errno = fail_errno f,
                 fpos = 0, ferror = False, feof = False\<rparr>"
    by (simp add: rewind_def)
  from assms have mode: "\<not> (CHR ''w'' \<in> set mode \<or> CHR ''a'' \<in> set mode)"
    by (auto simp: zstdopenfile_def)
  with assms fr have ok: "\<not> ferror in1" "\<not> length hdr < 4"
    by (auto simp: zstdopenfile_def split: if_splits)
  with assms fr mode have "le32dec hdr = ZSTD_MAGICNUMBER"
    by (auto simp: zstdopenfile_def Let_def split: if_splits)
  with assms fr mode ok have "c0 = zstdfile_init eng
                  \<lparr>in_file = rewind in1, logic_offset = 0, decode_offset = 0, actual_len = 0,
                   outbuf_start = 0, decomp = None, inbuf = [], outbuf = [], inbuf_size = 0,
                   obuf_size = 0, obuf_pos = 0, ibuf_size = 0, ibuf_pos = 0,
                   eof = False, truncated = False\<rparr>"
    by (auto simp: zstdopenfile_def Let_def)
  then show ?thesis unfolding rw by (simp add: zstdfile_init_def)
qed

lemma zstdfile_init_fresh:
  "zstdfile_init eng (c\<lparr>in_file := rewind (in_file c)\<rparr>) =
     \<lparr>in_file = \<lparr>contents = contents (in_file c), fail_errno = fail_errno (in_file c),
                 fpos = 0, ferror = False, feof = False\<rparr>,
      logic_offset = 0, decode_offset = 0, actual_len = 0, outbuf_start = 0,
      decomp = Some (ZSTD_createDCtx eng), inbuf = [], outbuf = [],
      inbuf_size = ZSTD_DStreamInSize eng, obuf_size = ZSTD_DStreamOutSize eng,
      obuf_pos = 0, ibuf_size = 0, ibuf_pos = 0, eof = False, truncated = False\<rparr>"
  by (simp add: zstdfile_init_def rewind_def)

lemma seek_to_zero:
  assumes "whence = SEEK_SET \<or> whence = SEEK_CUR" and "seek_target c offset whence = 0"
  shows "zstdfile_seek eng c e offset whence =
           Some (Returns (0, zstdfile_init eng (c\<lparr>in_file := rewind (in_file c)\<rparr>), 0, e))"
  using assms
  by (auto simp: zstdfile_seek_def seek_done_def zstdfile_init_def zstdfile_cleanup_def Let_def)

lemma zstdfile_read_cursor:
  assumes "zstdfile_read eng c e n = Some (Returns (r, d, c', e'))"
    and "obuf_pos c \<le> length (outbuf c)"
  shows "obuf_pos c' \<le> length (outbuf c')"
  using assms(1)
proof (cases rule: zstdfile_read_Returns)
  case nothing
  with assms(2) show ?thesis by simp
next
  case failed
  from zstdfile_read_out_cookie [OF failed(4)] assms(2) show ?thesis by auto
next
  case (looped r')
  from read_loop_count [OF looped(6)] assms(2)
  have "obuf_pos (cookie r') \<le> length (outbuf (cookie r'))" by simp
  with zstdfile_read_out_cookie [OF looped(7)] show ?thesis by auto
qed

lemma zstdfile_seek_cursor:
  assumes "zstdfile_seek eng c e offset whence = Some (Returns (r, c', off', e'))"
    and "obuf_pos c \<le> length (outbuf c)"
  shows "obuf_pos c' \<le> length (outbuf c')"
  using assms(1)
proof (cases rule: zstdfile_seek_Returns)
  case rejected
  with assms(2) show ?thesis by simp
next
  case rewound
  then show ?thesis by (simp add: zstdfile_init_def)
next
  case (skipped st n n')
  show ?thesis
    by (rule seek_skip_rule [where P = "\<lambda>c. obuf_pos c \<le> length (outbuf c)", OF skipped assms(2)])
       (rule zstdfile_read_cursor)
qed

lemma zstdfile_read_result:
  assumes "zstdfile_read eng c e n = Some (Returns (r, d, c', e'))"
    and "0 < n" and "\<not> eof c" and "obuf_pos c \<le> length (outbuf c)"
  shows "(d \<noteq> [] \<longrightarrow> r = int (length d))
       \<and> (d = [] \<and> truncated c' \<longrightarrow> eof c' \<and> e' = ENOBUFS \<and> r = - 1)
       \<and> (d = [] \<and> \<not> truncated c' \<longrightarrow> r = 0 \<and> e' = e)"
  using assms(1)
proof (cases rule: zstdfile_read_Returns)
  case nothing
  with assms(2,3) show ?thesis by simp
next
  case failed
  from zstdfile_read_out_Returns(1,3) [OF failed(4)] failed(3) show ?thesis by simp
next
  case (looped r')
  from read_loop_count [OF looped(6)] assms(4)
  have len: "length (buf r') = total r'" and err: "errno_r r' = e \<or> truncated (cookie r')"
    by simp_all
  note out = zstdfile_read_out_Returns [OF looped(7)]
  show ?thesis
  proof (cases "0 < total r'")
    case True
    with out(1,2) len show ?thesis by auto
  next
    case False
    then have t: "total r' = 0" by simp
    with len out(1) have d: "d = []" by simp
    show ?thesis
    proof (cases "truncated (cookie r')")
      case True
      with out(3) t d show ?thesis by simp
    next
      case False
      with out(4) t d err show ?thesis by simp
    qed
  qed
qed

text \<open>The end of a frame is forgotten between calls. Whatever the decoder said last, a
  read on a stream whose output is all delivered and whose input is all consumed asks the
  source for more; where the source is at its end, the stream is taken for truncated.\<close>

lemma frame_end_forgotten:
  assumes "\<not> eof c" and "\<not> truncated c" and "decode_offset c = logic_offset c"
    and "obuf_pos c = outbuf_start c" and "ibuf_pos c = ibuf_size c"
    and "length (contents (in_file c)) \<le> fpos (in_file c)"
    and "fail_errno (in_file c) = None" and "\<not> ferror (in_file c)"
    and "0 < inbuf_size c" and "0 < n" and "n \<le> SSIZE_MAX"
  shows "zstdfile_read eng c e n =
           Some (Returns (- 1, [],
                          c\<lparr>in_file := (in_file c)\<lparr>feof := True\<rparr>,
                            truncated := True, eof := True\<rparr>, ENOBUFS))"
proof -
  let ?r = "\<lparr>cookie = c, errno_r = e, buf = [], size_r = n, total = 0, ret = 1,
              ignorebytes = 0\<rparr>"
  let ?c' = "c\<lparr>in_file := (in_file c)\<lparr>feof := True\<rparr>, truncated := True\<rparr>"
  have dr: "drain ?r = ?r" using assms(4) by (simp add: drain_no_skip)
  have fr: "fread (in_file c) (inbuf_size c) e = ([], (in_file c)\<lparr>feof := True\<rparr>, e)"
    using assms(6,7,9) by (simp add: fread_def Let_def)
  have "refill ?r = Out (?r\<lparr>cookie := ?c'\<rparr>)"
    using assms(5,8) fr by (simp add: refill_def store_def Let_def)
  with dr assms(4,10) have "iteration eng ?r = Out (?r\<lparr>cookie := ?c'\<rparr>)"
    by (simp add: iteration_def Let_def)
  then have "zstdfile_read_loop eng ?r = Some (Returns (?r\<lparr>cookie := ?c'\<rparr>))"
    by (subst zstdfile_read_loop.simps) simp
  with assms(1,2,3,10,11) show ?thesis
    by (simp add: zstdfile_read_def zstdfile_read_out_def SSIZE_MAX_def)
qed

section \<open>The examples, call by call\<close>

text \<open>The definitions that the simplifier unfolds to run the model on the two example
  streams, and the states the calls go through.\<close>

lemmas eval_defs = zstdfile_read_def zstdfile_read_out_def iteration_def refill_def decompress_def
  drain_once skip_ignored_def deliver_def fread_def store_def rewind_def file_of_def
  hello_frame_def trunc_frame_def raw_engine_def
  zstdfile_init_def zstdfile_cleanup_def zstdopenfile_def ZSTD_MAGICNUMBER_def SSIZE_MAX_def
  ENOBUFS_def zstd_error_def Let_def
  zstdfile_seek_def seek_done_def seek_target_def bsz_def SEEK_SET_def SEEK_CUR_def replies_def
  zstdfile_read_loop.simps seek_skip.simps
  hello_c0_def hello_c1_def trunc_c0_def trunc_c1_def trunc_c2_def

lemma hello_open:
  "zstdopenfile raw_engine (file_of hello_frame) ''r'' None 0 =
     (Cookie hello_c0, file_of hello_frame, None, 0)"
  by (simp add: eval_defs)

lemma trunc_open:
  "zstdopenfile raw_engine (file_of trunc_frame) ''r'' None 0 =
     (Cookie trunc_c0, file_of trunc_frame, None, 0)"
  by (simp add: eval_defs)

lemma hello_read_5:
  "zstdfile_read raw_engine hello_c0 0 5 = Some (Returns (5, ''hello'', hello_c1, 0))"
  by (simp add: eval_defs)

lemma trunc_read_100:
  "zstdfile_read raw_engine trunc_c0 0 100 = Some (Returns (6, ''hello '', trunc_c1, 0))"
  by (simp add: eval_defs)

lemma trunc_read_again:
  "zstdfile_read raw_engine trunc_c1 0 100 = Some (Returns (- 1, [], trunc_c2, ENOBUFS))"
  by (simp add: eval_defs)

lemma hello_run_5:
  "run raw_engine hello_c0 0 [Read 5] = Some (Returns ([Read_reply 5 ''hello'' 5 0], hello_c1, 0))"
  by (simp add: hello_read_5) (simp add: hello_c1_def)

lemma trunc_run_100:
  "run raw_engine trunc_c0 0 [Read 100] =
     Some (Returns ([Read_reply 6 ''hello '' 6 0], trunc_c1, 0))"
  by (simp add: trunc_read_100) (simp add: trunc_c1_def)

lemma hello_read_all:
  "read_all raw_engine hello_c0 0 100 [] = Some (Returns (''hello world'', 0))"
  by (simp add: eval_defs read_all.simps)

section \<open>The claims\<close>

text \<open>
  Claim C1. The source is the magic number and one complete frame that decodes to
  \<open>hello world\<close>. A read of 5 bytes gives \<open>hello\<close> and leaves the logical offset at
  5, a read of 6 bytes gives \<open> world\<close> and leaves it at 11. The next read does not give
  0: the result of the decoder that marked the end of the frame was a local of the first
  call, the third call asks the exhausted source for more input, takes the stream for
  truncated and returns \<open>- 1\<close> with \<open>ENOBUFS\<close>. Where one read asks for more than the
  stream holds, the end of the frame is seen in that call and the next read gives 0.
\<close>

theorem hello_world_third_read:
  "zstdopenfile raw_engine (file_of hello_frame) ''r'' None 0 =
     (Cookie hello_c0, file_of hello_frame, None, 0)
   \<and> replies raw_engine hello_c0 0 [Read 5, Read 6, Read 1] =
       Some (Returns [Read_reply 5 ''hello'' 5 0, Read_reply 6 '' world'' 11 0,
                      Read_reply (- 1) [] 11 ENOBUFS])
   \<and> replies raw_engine hello_c0 0 [Read 100, Read 1] =
       Some (Returns [Read_reply 11 ''hello world'' 11 0, Read_reply 0 [] 11 0])"
  by (simp add: eval_defs)

text \<open>
  Claim C2, as the code has it. On a stream with \<open>truncated\<close> set and \<open>eof\<close> not yet
  set, the next read of at least one byte stores nothing, returns \<open>- 1\<close> with \<open>ENOBUFS\<close>
  and sets \<open>eof\<close>; every read after it returns 0 and changes nothing. No read returns
  a positive count.
\<close>

theorem truncated_reads:
  assumes "truncated c" and "\<not> eof c" and "0 < n" and "n \<le> SSIZE_MAX"
    and "\<forall>k \<in> set ns. k \<le> SSIZE_MAX"
  shows "run eng c e (map Read (n # ns)) =
           Some (Returns (Read_reply (- 1) [] (logic_offset c) ENOBUFS
                            # map (\<lambda>k. Read_reply 0 [] (logic_offset c) ENOBUFS) ns,
                          c\<lparr>eof := True\<rparr>, ENOBUFS))"
proof -
  have "run eng (c\<lparr>eof := True\<rparr>) ENOBUFS (map Read ns) =
      Some (Returns (map (\<lambda>k. Read_reply 0 [] (logic_offset c) ENOBUFS) ns,
                     c\<lparr>eof := True\<rparr>, ENOBUFS))"
    using reads_at_eof [of "c\<lparr>eof := True\<rparr>" ns eng ENOBUFS] assms(5) by simp
  with read_when_truncated [OF assms(1-4)] show ?thesis by simp
qed

theorem truncated_reads_witness:
  "truncated trunc_c1 \<and> \<not> eof trunc_c1
   \<and> run raw_engine trunc_c1 0 (map Read [100, 100, 0, 7]) =
       Some (Returns ([Read_reply (- 1) [] 6 ENOBUFS, Read_reply 0 [] 6 ENOBUFS,
                       Read_reply 0 [] 6 ENOBUFS, Read_reply 0 [] 6 ENOBUFS],
                      trunc_c2, ENOBUFS))"
  using truncated_reads [of trunc_c1 100 "[100, 0, 7]" raw_engine 0]
  by (simp add: trunc_c0_def trunc_c1_def trunc_c2_def hello_c0_def SSIZE_MAX_def)

text \<open>
  Claim C2, as the spec states it, fails. The stream \<open>trunc_c1\<close> is what a read of the
  cut-off frame leaves, with \<open>truncated\<close> set. The read after it fails, and the one after
  that returns 0, not a negative value.
\<close>

theorem truncated_then_zero:
  "zstdfile_read raw_engine trunc_c0 0 100 = Some (Returns (6, ''hello '', trunc_c1, 0))
   \<and> truncated trunc_c1
   \<and> replies raw_engine trunc_c1 0 [Read 100, Read 100] =
       Some (Returns [Read_reply (- 1) [] 6 ENOBUFS, Read_reply 0 [] 6 ENOBUFS])"
  by (simp add: eval_defs)

text \<open>
  Claim C3. On a stream that \<open>zstdopenfile\<close> and any calls after it have produced, a
  read of at least one byte on a stream not yet at its end reaches the label \<open>out\<close>.
  Where the call comes back: if it delivered any byte, it returns their count; if it
  delivered none and \<open>truncated\<close> is set, \<open>eof\<close> is set, \<open>errno\<close> is \<open>ENOBUFS\<close> and it
  returns \<open>- 1\<close>; if it delivered none and \<open>truncated\<close> is not set, it returns 0 and
  leaves \<open>errno\<close> as it was.
\<close>

theorem read_error_path:
  assumes "zstdopenfile eng f mode w e0 = (Cookie c0, f', w', e1)"
    and "run eng c0 e2 ops = Some (Returns (rs, c, e))"
    and "zstdfile_read eng c e n = Some (Returns (r, d, c', e'))"
    and "0 < n" and "\<not> eof c"
  shows "(d \<noteq> [] \<longrightarrow> r = int (length d))
       \<and> (d = [] \<and> truncated c' \<longrightarrow> eof c' \<and> e' = ENOBUFS \<and> r = - 1)
       \<and> (d = [] \<and> \<not> truncated c' \<longrightarrow> r = 0 \<and> e' = e)"
proof -
  from open_Cookie [OF assms(1)] have "obuf_pos c0 \<le> length (outbuf c0)" by simp
  with assms(2) have "obuf_pos c \<le> length (outbuf c)"
    by (rule run_invariant [where P = "\<lambda>c. obuf_pos c \<le> length (outbuf c)"])
       (erule zstdfile_read_cursor zstdfile_seek_cursor, assumption)+
  with assms(3-5) show ?thesis by (rule zstdfile_read_result)
qed

theorem read_error_path_witness:
  "zstdopenfile raw_engine (file_of trunc_frame) ''r'' None 0 =
     (Cookie trunc_c0, file_of trunc_frame, None, 0)
   \<and> run raw_engine trunc_c0 0 [] = Some (Returns ([], trunc_c0, 0))
   \<and> zstdfile_read raw_engine trunc_c0 0 100 = Some (Returns (6, ''hello '', trunc_c1, 0))
   \<and> run raw_engine trunc_c0 0 [Read 100] =
       Some (Returns ([Read_reply 6 ''hello '' 6 0], trunc_c1, 0))
   \<and> zstdfile_read raw_engine trunc_c1 0 100 = Some (Returns (- 1, [], trunc_c2, ENOBUFS))
   \<and> \<not> eof trunc_c0 \<and> \<not> eof trunc_c1 \<and> truncated trunc_c2 \<and> eof trunc_c2"
  using read_error_path [OF trunc_open _ trunc_read_100, of 0 "[]" "[]"]
    read_error_path [OF trunc_open trunc_run_100 trunc_read_again]
    trunc_open trunc_read_100 trunc_run_100 trunc_read_again
  by (simp add: trunc_c0_def trunc_c1_def trunc_c2_def hello_c0_def)

text \<open>
  Claim C4. A source that is open for reading, has no error pending and holds four bytes
  at its position that do not decode to the magic number is rewound and handed back as
  it is, with \<open>*was_zstd\<close> set to false; no cookie is made.
\<close>

theorem open_not_compressed:
  assumes "CHR ''w'' \<notin> set mode" and "CHR ''a'' \<notin> set mode"
    and "\<not> ferror f" and "fpos f + 4 \<le> length (contents f)"
    and "le32dec (take 4 (drop (fpos f) (contents f))) \<noteq> ZSTD_MAGICNUMBER"
  shows "zstdopenfile eng f mode was_zstd e =
           (Original (rewind f), rewind f, map_option (\<lambda>_. False) was_zstd, e)"
proof -
  from assms(4) have "4 \<le> length (drop (fpos f) (contents f))" by simp
  then have "fread f 4 e = (take 4 (drop (fpos f) (contents f)), f\<lparr>fpos := fpos f + 4\<rparr>, e)"
    by (simp add: fread_def Let_def)
  with assms show ?thesis
    by (simp add: zstdopenfile_def rewind_def Let_def)
qed

theorem open_not_compressed_witness:
  "zstdopenfile raw_engine (file_of ''plain text'') ''r'' (Some True) 0 =
     (Original (file_of ''plain text''), file_of ''plain text'', Some False, 0)"
  using open_not_compressed [of "''r''" "file_of ''plain text''" raw_engine "Some True" 0]
  by (simp add: file_of_def rewind_def ZSTD_MAGICNUMBER_def)

text \<open>
  Claim C5. A seek whose \<open>whence\<close> is neither \<open>SEEK_SET\<close> nor \<open>SEEK_CUR\<close>, or whose
  target is negative, or whose target lies before the logical offset and is not 0,
  returns \<open>- 1\<close> and changes neither the stream state nor the offset passed in. The
  comparisons are those of the code, on \<open>off64_t\<close>.
\<close>

theorem seek_rejected:
  assumes "(whence \<noteq> SEEK_SET \<and> whence \<noteq> SEEK_CUR)
         \<or> sint (seek_target c offset whence) < 0
         \<or> (sint (seek_target c offset whence) < sint (logic_offset c)
              \<and> seek_target c offset whence \<noteq> 0)"
  shows "zstdfile_seek eng c e offset whence = Some (Returns (- 1, c, offset, e))"
  using assms by (auto simp: zstdfile_seek_def Let_def)

theorem seek_rejected_witness:
  "logic_offset hello_c1 = 5
   \<and> zstdfile_seek raw_engine hello_c1 0 3 SEEK_SET = Some (Returns (- 1, hello_c1, 3, 0))
   \<and> zstdfile_seek raw_engine hello_c1 0 (- 7) SEEK_CUR = Some (Returns (- 1, hello_c1, - 7, 0))
   \<and> zstdfile_seek raw_engine hello_c1 0 0 SEEK_END = Some (Returns (- 1, hello_c1, 0, 0))"
  using seek_rejected [of SEEK_SET hello_c1 3 raw_engine 0]
    seek_rejected [of SEEK_CUR hello_c1 "- 7" raw_engine 0]
    seek_rejected [of SEEK_END hello_c1 0 raw_engine 0]
  by (simp add: seek_target_def SEEK_SET_def SEEK_CUR_def SEEK_END_def hello_c1_def)

text \<open>
  Claim C6. After five bytes of the \<open>hello world\<close> stream have been read, a seek to
  offset 100, beyond the 11 bytes the stream decodes to, does not succeed at offset 11:
  its first read drains the last six bytes and takes the stream for truncated, its second
  read fails, and the seek returns \<open>- 1\<close>. The same seek on the fresh stream does
  succeed at offset 11, and the read after it gives 0.
\<close>

theorem seek_past_end_fails:
  "replies raw_engine hello_c0 0 [Read 5, Seek 100 SEEK_SET] =
     Some (Returns [Read_reply 5 ''hello'' 5 0, Seek_reply (- 1) 100 11 ENOBUFS])
   \<and> replies raw_engine hello_c0 0 [Seek 100 SEEK_SET, Read 1] =
       Some (Returns [Seek_reply 0 11 11 0, Read_reply 0 [] 11 0])"
  by (simp add: eval_defs)

text \<open>
  Claim C7. From any state that calls of read and seek have brought an opened stream
  to, a seek to offset 0 gives back the very state \<open>zstdopenfile\<close> made; so seeking to 0
  and reading to the end gives what reading the fresh stream to the end gives.
\<close>

theorem rewind_idempotence:
  assumes "zstdopenfile eng f mode w e0 = (Cookie c0, f', w', e1)"
    and "run eng c0 e2 ops = Some (Returns (rs, c, e))"
  shows "zstdfile_seek eng c e 0 SEEK_SET = Some (Returns (0, c0, 0, e))
       \<and> rewind_read_all eng c e n = read_all eng c0 e n []"
proof -
  note c0 = open_Cookie [OF assms(1)]
  have "contents (in_file c) = contents (in_file c0)
      \<and> fail_errno (in_file c) = fail_errno (in_file c0)"
  proof (rule run_invariant [where P = "\<lambda>x. contents (in_file x) = contents (in_file c0)
          \<and> fail_errno (in_file x) = fail_errno (in_file c0)", OF assms(2)])
    fix x k r d c1 and ea eb :: int
    assume "contents (in_file x) = contents (in_file c0)
          \<and> fail_errno (in_file x) = fail_errno (in_file c0)"
      and "zstdfile_read eng x ea k = Some (Returns (r, d, c1, eb))"
    with zstdfile_read_source [of eng x ea k r d c1 eb]
    show "contents (in_file c1) = contents (in_file c0)
          \<and> fail_errno (in_file c1) = fail_errno (in_file c0)" by simp
  next
    fix x offset whence r c1 off1 and ea eb :: int
    assume "contents (in_file x) = contents (in_file c0)
          \<and> fail_errno (in_file x) = fail_errno (in_file c0)"
      and "zstdfile_seek eng x ea offset whence = Some (Returns (r, c1, off1, eb))"
    with zstdfile_seek_source [of eng x ea offset whence r c1 off1 eb]
    show "contents (in_file c1) = contents (in_file c0)
          \<and> fail_errno (in_file c1) = fail_errno (in_file c0)" by simp
  qed simp
  moreover have "contents (in_file c0) = contents f" and "fail_errno (in_file c0) = fail_errno f"
    by (subst c0, simp)+
  ultimately have "zstdfile_init eng (c\<lparr>in_file := rewind (in_file c)\<rparr>) =
     \<lparr>in_file = \<lparr>contents = contents f, fail_errno = fail_errno f,
                 fpos = 0, ferror = False, feof = False\<rparr>,
      logic_offset = 0, decode_offset = 0, actual_len = 0, outbuf_start = 0,
      decomp = Some (ZSTD_createDCtx eng), inbuf = [], outbuf = [],
      inbuf_size = ZSTD_DStreamInSize eng, obuf_size = ZSTD_DStreamOutSize eng,
      obuf_pos = 0, ibuf_size = 0, ibuf_pos = 0, eof = False, truncated = False\<rparr>"
    by (simp add: zstdfile_init_fresh)
  with c0 have "zstdfile_init eng (c\<lparr>in_file := rewind (in_file c)\<rparr>) = c0" by simp
  with seek_to_zero [of SEEK_SET c 0 eng e]
  have seek: "zstdfile_seek eng c e 0 SEEK_SET = Some (Returns (0, c0, 0, e))"
    by (simp add: seek_target_def)
  then show ?thesis by (simp add: rewind_read_all_def)
qed

theorem rewind_idempotence_witness:
  "zstdopenfile raw_engine (file_of hello_frame) ''r'' None 0 =
     (Cookie hello_c0, file_of hello_frame, None, 0)
   \<and> run raw_engine hello_c0 0 [Read 5] =
       Some (Returns ([Read_reply 5 ''hello'' 5 0], hello_c1, 0))
   \<and> zstdfile_seek raw_engine hello_c1 0 0 SEEK_SET = Some (Returns (0, hello_c0, 0, 0))
   \<and> rewind_read_all raw_engine hello_c1 0 100 = Some (Returns (''hello world'', 0))
   \<and> read_all raw_engine hello_c0 0 100 [] = Some (Returns (''hello world'', 0))"
  using rewind_idempotence [OF hello_open hello_run_5, of 100] hello_open hello_run_5
    hello_read_all
  by simp

text \<open>
  Claim C8. In every state that \<open>zstdopenfile\<close> and any calls of read and seek after it
  produce, \<open>decode_offset\<close> equals \<open>logic_offset\<close>, and no read fails the assertion
  \<open>ignorebytes == 0\<close>.
\<close>

theorem offsets_agree_at_read_entry:
  assumes "zstdopenfile eng f mode w e0 = (Cookie c0, f', w', e1)"
    and "run eng c0 e2 ops = Some (Returns (rs, c, e))"
  shows "decode_offset c = logic_offset c
       \<and> zstdfile_read eng c e3 n \<noteq> Some (Abort Assert_ignorebytes)"
proof -
  from open_Cookie [OF assms(1)] have "decode_offset c0 = logic_offset c0" by simp
  with assms(2) have "decode_offset c = logic_offset c"
    by (rule run_invariant [where P = "\<lambda>c. decode_offset c = logic_offset c"])
       (erule zstdfile_read_offsets zstdfile_seek_offsets, assumption)+
  with read_assertion_holds [of c eng e3 n] show ?thesis by simp
qed

theorem offsets_agree_at_read_entry_witness:
  "zstdopenfile raw_engine (file_of hello_frame) ''r'' None 0 =
     (Cookie hello_c0, file_of hello_frame, None, 0)
   \<and> run raw_engine hello_c0 0 [Read 5] =
       Some (Returns ([Read_reply 5 ''hello'' 5 0], hello_c1, 0))
   \<and> decode_offset hello_c1 = 5 \<and> logic_offset hello_c1 = 5
   \<and> zstdfile_read raw_engine hello_c1 0 6 \<noteq> Some (Abort Assert_ignorebytes)"
  using offsets_agree_at_read_entry [OF hello_open hello_run_5, of 0 6] hello_open hello_run_5
  by (simp add: hello_c1_def)

text \<open>
  Claim C9. A seek whose target is 0 succeeds in every stream state: the state becomes
  the initialised one, with both flags clear and all offsets and cursors at 0, on the
  rewound source.
\<close>

theorem seek_zero_resets:
  assumes "whence = SEEK_SET \<or> whence = SEEK_CUR" and "seek_target c offset whence = 0"
  shows "zstdfile_seek eng c e offset whence =
           Some (Returns (0, zstdfile_init eng (c\<lparr>in_file := rewind (in_file c)\<rparr>), 0, e))
       \<and> zstdfile_init eng (c\<lparr>in_file := rewind (in_file c)\<rparr>) =
           \<lparr>in_file = \<lparr>contents = contents (in_file c), fail_errno = fail_errno (in_file c),
                       fpos = 0, ferror = False, feof = False\<rparr>,
            logic_offset = 0, decode_offset = 0, actual_len = 0, outbuf_start = 0,
            decomp = Some (ZSTD_createDCtx eng), inbuf = [], outbuf = [],
            inbuf_size = ZSTD_DStreamInSize eng, obuf_size = ZSTD_DStreamOutSize eng,
            obuf_pos = 0, ibuf_size = 0, ibuf_pos = 0, eof = False, truncated = False\<rparr>"
  by (rule conjI [OF seek_to_zero [OF assms] zstdfile_init_fresh])

theorem seek_zero_resets_witness:
  "eof trunc_c2 \<and> truncated trunc_c2
   \<and> zstdfile_seek raw_engine trunc_c2 ENOBUFS 0 SEEK_SET = Some (Returns (0, trunc_c0, 0, ENOBUFS))
   \<and> zstdfile_seek raw_engine hello_c1 0 (- 5) SEEK_CUR = Some (Returns (0, hello_c0, 0, 0))"
  using seek_zero_resets [of SEEK_SET trunc_c2 0 raw_engine ENOBUFS]
    seek_zero_resets [of SEEK_CUR hello_c1 "- 5" raw_engine 0]
  by (simp add: seek_target_def SEEK_SET_def SEEK_CUR_def hello_c0_def hello_c1_def trunc_c0_def
        trunc_c1_def trunc_c2_def zstdfile_init_def rewind_def file_of_def raw_engine_def)

text \<open>
  Claim C10. A forward seek is not undone when it fails. On the stream of the cut-off
  frame, at logical offset 0, a seek to offset 100 returns \<open>- 1\<close>, and the logical offset
  is 6 afterwards: the six bytes its first read discarded stay consumed.
\<close>

theorem seek_not_atomic:
  "zstdopenfile raw_engine (file_of trunc_frame) ''r'' None 0 =
     (Cookie trunc_c0, file_of trunc_frame, None, 0)
   \<and> logic_offset trunc_c0 = 0
   \<and> replies raw_engine trunc_c0 0 [Seek 100 SEEK_SET] =
       Some (Returns [Seek_reply (- 1) 100 6 ENOBUFS])"
  by (simp add: eval_defs)

end
